theory Spec2Isabelle
  imports Main
begin

section \<open>Run State Store: data model\<close>

text \<open>
  The interface \<open>RunRecord\<close> of \<open>server/lib/state.ts\<close>. Fields marked \<open>?\<close> in the
  source are optional.
\<close>

record RunRecord =
  runId :: string
  jobName :: string
  startedAt :: string
  completedAt :: "string option"
  exitCode :: "int option"
  attempts :: "int option"
  status :: "string option"
  logFile :: string

text \<open>
  The state file holds a JSON array of records. \<open>None\<close> stands for a file that is
  missing or does not parse; the writers are assumed to succeed.
\<close>

type_synonym state_file = "RunRecord list option"

text \<open>\<open>let runs = []; try { runs = JSON.parse(...) } catch {}\<close> (runner.sh) and \<open>getRecentRuns\<close>.\<close>

definition getRecentRuns :: "state_file \<Rightarrow> RunRecord list" where
  "getRecentRuns sf = (case sf of None \<Rightarrow> [] | Some runs \<Rightarrow> runs)"

text \<open>JavaScript's \<open>xs.slice(k)\<close>: a negative \<open>k\<close> counts from the end.\<close>

definition js_slice :: "int \<Rightarrow> 'a list \<Rightarrow> 'a list" where
  "js_slice k xs =
     (let n = int (length xs);
          start = (if k < 0 then max (n + k) 0 else min k n)
      in drop (nat start) xs)"

text \<open>\<open>if (runs.length > 100) runs = runs.slice(-100);\<close>\<close>

definition keep_last_100 :: "'a list \<Rightarrow> 'a list" where
  "keep_last_100 runs = (if length runs > 100 then js_slice (- 100) runs else runs)"

text \<open>runner.sh, "Write running entry to state.json".\<close>

definition running_entry :: "string \<Rightarrow> string \<Rightarrow> string \<Rightarrow> string \<Rightarrow> RunRecord" where
  "running_entry RUN_ID JOB_NAME START_TIME LOG_FILE =
     \<lparr> runId = RUN_ID, jobName = JOB_NAME, startedAt = START_TIME, completedAt = None,
       exitCode = None, attempts = None, status = Some ''running'', logFile = LOG_FILE \<rparr>"

definition write_running :: "state_file \<Rightarrow> RunRecord \<Rightarrow> state_file" where
  "write_running sf entry = Some (keep_last_100 (getRecentRuns sf @ [entry]))"

text \<open>\<open>runs.findIndex(p)\<close>: the first index whose element satisfies \<open>p\<close>, \<open>None\<close> for -1.\<close>

fun findIndex :: "('a \<Rightarrow> bool) \<Rightarrow> 'a list \<Rightarrow> nat option" where
  "findIndex p [] = None"
| "findIndex p (x # xs) =
     (if p x then Some 0 else (case findIndex p xs of None \<Rightarrow> None | Some i \<Rightarrow> Some (Suc i)))"

text \<open>runner.sh, "Update state.json": replace the entry in place, or push it.\<close>

definition final_entry ::
  "string \<Rightarrow> string \<Rightarrow> string \<Rightarrow> string \<Rightarrow> int \<Rightarrow> int \<Rightarrow> string \<Rightarrow> RunRecord" where
  "final_entry RUN_ID JOB_NAME START_TIME END_TIME EXIT_CODE ATTEMPT LOG_FILE =
     \<lparr> runId = RUN_ID, jobName = JOB_NAME, startedAt = START_TIME,
       completedAt = Some END_TIME, exitCode = Some EXIT_CODE, attempts = Some ATTEMPT,
       status = None, logFile = LOG_FILE \<rparr>"

definition replace_or_push :: "RunRecord list \<Rightarrow> RunRecord \<Rightarrow> RunRecord list" where
  "replace_or_push runs entry =
     (case findIndex (\<lambda>r. runId r = runId entry) runs of
        Some idx \<Rightarrow> runs[idx := entry]
      | None \<Rightarrow> runs @ [entry])"

definition final_update :: "state_file \<Rightarrow> RunRecord \<Rightarrow> state_file" where
  "final_update sf entry = Some (keep_last_100 (replace_or_push (getRecentRuns sf) entry))"


section \<open>Run State Store: update and deletion (server/lib/state.ts)\<close>

text \<open>
  \<open>Partial<RunRecord>\<close>: the fields an update carries. \<open>Object.assign(run, updates)\<close>
  overwrites exactly the fields that are present.
\<close>

record RunUpdates =
  u_runId :: "string option"
  u_jobName :: "string option"
  u_startedAt :: "string option"
  u_completedAt :: "string option"
  u_exitCode :: "int option"
  u_attempts :: "int option"
  u_status :: "string option"
  u_logFile :: "string option"

definition no_updates :: RunUpdates where
  "no_updates = \<lparr> u_runId = None, u_jobName = None, u_startedAt = None, u_completedAt = None,
     u_exitCode = None, u_attempts = None, u_status = None, u_logFile = None \<rparr>"

definition object_assign :: "RunRecord \<Rightarrow> RunUpdates \<Rightarrow> RunRecord" where
  "object_assign run u =
     \<lparr> runId = (case u_runId u of Some v \<Rightarrow> v | None \<Rightarrow> runId run),
       jobName = (case u_jobName u of Some v \<Rightarrow> v | None \<Rightarrow> jobName run),
       startedAt = (case u_startedAt u of Some v \<Rightarrow> v | None \<Rightarrow> startedAt run),
       completedAt = (case u_completedAt u of Some v \<Rightarrow> Some v | None \<Rightarrow> completedAt run),
       exitCode = (case u_exitCode u of Some v \<Rightarrow> Some v | None \<Rightarrow> exitCode run),
       attempts = (case u_attempts u of Some v \<Rightarrow> Some v | None \<Rightarrow> attempts run),
       status = (case u_status u of Some v \<Rightarrow> Some v | None \<Rightarrow> status run),
       logFile = (case u_logFile u of Some v \<Rightarrow> v | None \<Rightarrow> logFile run) \<rparr>"

text \<open>
  \<open>updateRun\<close>: the first record with the id is updated; \<open>None\<close> (the source's
  \<open>null\<close>) when the file does not parse or no record has the id.
\<close>

definition updateRun :: "state_file \<Rightarrow> string \<Rightarrow> RunUpdates \<Rightarrow> RunRecord option \<times> state_file" where
  "updateRun sf rid u =
     (case sf of
        None \<Rightarrow> (None, sf)
      | Some runs \<Rightarrow>
          (case findIndex (\<lambda>r. runId r = rid) runs of
             None \<Rightarrow> (None, sf)
           | Some idx \<Rightarrow>
               (let run = object_assign (runs ! idx) u
                in (Some run, Some (runs[idx := run])))))"

definition getRunById :: "state_file \<Rightarrow> string \<Rightarrow> RunRecord option" where
  "getRunById sf rid = find (\<lambda>r. runId r = rid) (getRecentRuns sf)"

text \<open>
  The part of the file system the store touches: the state file and the log files that
  exist. \<open>unlink_fails\<close> says for which paths \<open>unlinkSync\<close> throws.
\<close>

record store_fs =
  state :: state_file
  logs :: "string set"

text \<open>
  \<open>if (logFile && existsSync(logFile)) { try { unlinkSync(logFile); } catch {} }\<close>
\<close>

definition unlink_log :: "(string \<Rightarrow> bool) \<Rightarrow> string set \<Rightarrow> string \<Rightarrow> string set" where
  "unlink_log unlink_fails files lf =
     (if lf \<noteq> [] \<and> lf \<in> files
      then (if unlink_fails lf then files else files - {lf})
      else files)"

definition deleteRun :: "(string \<Rightarrow> bool) \<Rightarrow> store_fs \<Rightarrow> string \<Rightarrow> bool \<times> store_fs" where
  "deleteRun unlink_fails fs rid =
     (case state fs of
        None \<Rightarrow> (False, fs)
      | Some runs \<Rightarrow>
          (case findIndex (\<lambda>r. runId r = rid) runs of
             None \<Rightarrow> (False, fs)
           | Some idx \<Rightarrow>
               (True, \<lparr> state = Some (take idx runs @ drop (Suc idx) runs),
                        logs = unlink_log unlink_fails (logs fs) (logFile (runs ! idx)) \<rparr>)))"

text \<open>
  The loop of \<open>deleteRuns\<close>, with its three variables \<open>toKeep\<close>, \<open>deleted\<close> and the
  log files.
\<close>

fun deleteRuns_loop ::
  "(string \<Rightarrow> bool) \<Rightarrow> string set \<Rightarrow> RunRecord list \<Rightarrow> RunRecord list \<times> nat \<times> string set
     \<Rightarrow> RunRecord list \<times> nat \<times> string set" where
  "deleteRuns_loop uf idSet [] acc = acc"
| "deleteRuns_loop uf idSet (run # runs) (toKeep, deleted, files) =
     (if runId run \<notin> idSet \<or> status run = Some ''running''
      then deleteRuns_loop uf idSet runs (toKeep @ [run], deleted, files)
      else deleteRuns_loop uf idSet runs (toKeep, deleted + 1, unlink_log uf files (logFile run)))"

definition deleteRuns :: "(string \<Rightarrow> bool) \<Rightarrow> store_fs \<Rightarrow> string list \<Rightarrow> nat \<times> store_fs" where
  "deleteRuns unlink_fails fs runIds =
     (case state fs of
        None \<Rightarrow> (0, fs)
      | Some runs \<Rightarrow>
          (case deleteRuns_loop unlink_fails (set runIds) runs ([], 0, logs fs) of
             (toKeep, deleted, files) \<Rightarrow> (deleted, \<lparr> state = Some toKeep, logs = files \<rparr>)))"

text \<open>
  \<open>run.status || (run.exitCode === 0 ? "success" : "failed")\<close>: an absent or empty
  status is falsy.
\<close>

definition runStatus :: "RunRecord \<Rightarrow> string" where
  "runStatus run =
     (case status run of
        Some s \<Rightarrow> (if s \<noteq> [] then s else (if exitCode run = Some 0 then ''success'' else ''failed''))
      | None \<Rightarrow> (if exitCode run = Some 0 then ''success'' else ''failed''))"

text \<open>\<open>filter?.status && runStatus !== filter.status\<close>; the filter is \<open>None\<close> when absent.\<close>

definition filtered_out :: "string option \<Rightarrow> RunRecord \<Rightarrow> bool" where
  "filtered_out flt run =
     (case flt of None \<Rightarrow> False | Some s \<Rightarrow> s \<noteq> [] \<and> runStatus run \<noteq> s)"

fun clearRuns_loop ::
  "(string \<Rightarrow> bool) \<Rightarrow> string option \<Rightarrow> RunRecord list \<Rightarrow> RunRecord list \<times> nat \<times> string set
     \<Rightarrow> RunRecord list \<times> nat \<times> string set" where
  "clearRuns_loop uf flt [] acc = acc"
| "clearRuns_loop uf flt (run # runs) (toKeep, deleted, files) =
     (if filtered_out flt run
      then clearRuns_loop uf flt runs (toKeep @ [run], deleted, files)
      else if status run = Some ''running''
      then clearRuns_loop uf flt runs (toKeep @ [run], deleted, files)
      else clearRuns_loop uf flt runs (toKeep, deleted + 1, unlink_log uf files (logFile run)))"

definition clearRuns :: "(string \<Rightarrow> bool) \<Rightarrow> store_fs \<Rightarrow> string option \<Rightarrow> nat \<times> store_fs" where
  "clearRuns unlink_fails fs flt =
     (case state fs of
        None \<Rightarrow> (0, fs)
      | Some runs \<Rightarrow>
          (case clearRuns_loop unlink_fails flt runs ([], 0, logs fs) of
             (toKeep, deleted, files) \<Rightarrow> (deleted, \<lparr> state = Some toKeep, logs = files \<rparr>)))"

text \<open>
  The handler of \<open>DELETE /api/runs/:runId\<close> (routes/runs.ts): the HTTP status it answers
  with, and the store afterwards.
\<close>

definition delete_run_handler :: "(string \<Rightarrow> bool) \<Rightarrow> store_fs \<Rightarrow> string \<Rightarrow> nat \<times> store_fs" where
  "delete_run_handler unlink_fails fs rid =
     (case getRunById (state fs) rid of
        None \<Rightarrow> (404, fs)
      | Some run \<Rightarrow>
          (if status run = Some ''running'' then (400, fs)
           else (case deleteRun unlink_fails fs rid of
                   (True, fs') \<Rightarrow> (200, fs')
                 | (False, fs') \<Rightarrow> (500, fs'))))"


text \<open>The log files a deletion removes: those of the removed records whose path is non-empty and whose \<open>unlinkSync\<close> does not throw.\<close>

definition removed_logs :: "(string \<Rightarrow> bool) \<Rightarrow> RunRecord list \<Rightarrow> string set" where
  "removed_logs uf rs = {lf \<in> logFile ` set rs. lf \<noteq> [] \<and> \<not> uf lf}"


text \<open>The sample store of the state tests (tests/state.test.ts).\<close>

definition sampleRuns :: "RunRecord list" where
  "sampleRuns =
     [ \<lparr> runId = ''run-1'', jobName = ''alpha'', startedAt = ''2025-01-01T00:00:00Z'',
         completedAt = Some ''2025-01-01T00:05:00Z'', exitCode = Some 0, attempts = None,
         status = Some ''success'', logFile = ''/tmp/fake-log-1.txt'' \<rparr>,
       \<lparr> runId = ''run-2'', jobName = ''beta'', startedAt = ''2025-01-02T00:00:00Z'',
         completedAt = Some ''2025-01-02T00:10:00Z'', exitCode = Some 1, attempts = None,
         status = Some ''failed'', logFile = ''/tmp/fake-log-2.txt'' \<rparr>,
       \<lparr> runId = ''run-3'', jobName = ''gamma'', startedAt = ''2025-01-03T00:00:00Z'',
         completedAt = None, exitCode = None, attempts = None,
         status = Some ''running'', logFile = ''/tmp/fake-log-3.txt'' \<rparr> ]"

definition sampleStore :: store_fs where
  "sampleStore = \<lparr> state = Some sampleRuns,
     logs = {''/tmp/fake-log-1.txt'', ''/tmp/fake-log-2.txt'', ''/tmp/fake-log-3.txt''} \<rparr>"



section \<open>Killing a job (server/lib/runner.ts)\<close>

text \<open>
  What \<open>process.kill(-pid, "SIGTERM")\<close> does with the pid read from the pid file is the
  operating system's answer: the signal is delivered, the process group is gone
  (\<open>ESRCH\<close>), or the call throws something else (for instance \<open>EPERM\<close>, or a pid
  that does not parse), with its message.
\<close>

datatype signal_outcome = Delivered | ESRCH | SignalError string

text \<open>
  The files \<open>killJob\<close> touches: \<open><name>.pid\<close> and \<open><name>.lock\<close> under the lock
  directory, keyed by job name, and the state file. \<open>kill_calls\<close> lists the pid-file
  contents \<open>process.kill\<close> was called with.
\<close>

record kill_sys =
  pid_files :: "string \<Rightarrow> string option"
  lock_dirs :: "string set"
  run_state :: state_file
  kill_calls :: "string list"

record kill_result =
  killed :: bool
  error :: "string option"

text \<open>
  \<open>{ status: "killed", completedAt: new Date().toISOString(), exitCode: 137 }\<close>; the
  clock is read once for each record, \<open>now\<close> is that reading.
\<close>

definition killed_updates :: "string \<Rightarrow> RunUpdates" where
  "killed_updates now =
     no_updates \<lparr> u_status := Some ''killed'', u_completedAt := Some now, u_exitCode := Some 137 \<rparr>"

text \<open>\<open>for (const run of staleRuns) updateRun(run.runId, ...)\<close>; \<open>clock rid\<close> is the time at
  which the record with id \<open>rid\<close> is updated.\<close>

fun update_stale :: "(string \<Rightarrow> string) \<Rightarrow> state_file \<Rightarrow> RunRecord list \<Rightarrow> state_file" where
  "update_stale clock sf [] = sf"
| "update_stale clock sf (run # staleRuns) =
     update_stale clock (snd (updateRun sf (runId run) (killed_updates (clock (runId run))))) staleRuns"

text \<open>The second half of \<open>killJob\<close>: the scan of the state file.\<close>

definition mark_stale_runs ::
  "(string \<Rightarrow> string) \<Rightarrow> kill_sys \<Rightarrow> string \<Rightarrow> kill_result \<times> kill_sys" where
  "mark_stale_runs clock sys name =
     (let runs = getRecentRuns (run_state sys);
          staleRuns = filter (\<lambda>r. jobName r = name \<and> status r = Some ''running'') runs
      in if length staleRuns = 0
         then (\<lparr> killed = False, error = Some ''No running process found'' \<rparr>, sys)
         else (\<lparr> killed = True, error = None \<rparr>,
               sys \<lparr> run_state := update_stale clock (run_state sys) staleRuns \<rparr>))"

definition killJob ::
  "(string \<Rightarrow> signal_outcome) \<Rightarrow> (string \<Rightarrow> string) \<Rightarrow> kill_sys \<Rightarrow> string
     \<Rightarrow> kill_result \<times> kill_sys" where
  "killJob signal clock sys name =
     (case pid_files sys name of
        None \<Rightarrow> mark_stale_runs clock sys name
      | Some pid \<Rightarrow>
          (case signal pid of
             SignalError msg \<Rightarrow>
               (\<lparr> killed = False, error = Some msg \<rparr>, sys \<lparr> kill_calls := kill_calls sys @ [pid] \<rparr>)
           | _ \<Rightarrow>
               mark_stale_runs clock
                 (sys \<lparr> kill_calls := kill_calls sys @ [pid],
                        pid_files := (pid_files sys)(name := None),
                        lock_dirs := lock_dirs sys - {name} \<rparr>) name))"

text \<open>What the scan makes of one record.\<close>

definition force_killed :: "(string \<Rightarrow> string) \<Rightarrow> string \<Rightarrow> RunRecord \<Rightarrow> RunRecord" where
  "force_killed clock name r =
     (if jobName r = name \<and> status r = Some ''running''
      then r \<lparr> status := Some ''killed'', completedAt := Some (clock (runId r)), exitCode := Some 137 \<rparr>
      else r)"

text \<open>The early return of \<open>killJob\<close>: a pid file exists and the signal call throws something other than \<open>ESRCH\<close>.\<close>

definition signal_fails :: "(string \<Rightarrow> signal_outcome) \<Rightarrow> kill_sys \<Rightarrow> string \<Rightarrow> bool" where
  "signal_fails signal sys name =
     (case pid_files sys name of
        None \<Rightarrow> False
      | Some pid \<Rightarrow> (case signal pid of SignalError msg \<Rightarrow> True | _ \<Rightarrow> False))"

text \<open>Two situations: a job whose lock is held while the store has no running record, and a
  stale running record with no lock at all.\<close>

definition locked_without_record :: kill_sys where
  "locked_without_record =
     \<lparr> pid_files = (\<lambda>n. if n = ''my-job'' then Some ''4242'' else None),
       lock_dirs = {''my-job''}, run_state = Some [], kill_calls = [] \<rparr>"

definition stale_without_lock :: kill_sys where
  "stale_without_lock =
     \<lparr> pid_files = (\<lambda>n. None), lock_dirs = {},
       run_state = Some [running_entry ''my-job-20250101-000000'' ''my-job'' ''2025-01-01T00:00:00Z''
                           ''/logs/my-job-20250101-000000.log''],
       kill_calls = [] \<rparr>"


section \<open>Decimal numerals and timestamps\<close>

text \<open>The decimal digits of a number, as the shell's \<open>$i\<close>, \<open>date\<close> and JavaScript print them.\<close>

definition digit_char :: "nat \<Rightarrow> char" where
  "digit_char d = ''0123456789'' ! d"

fun show_nat :: "nat \<Rightarrow> string" where
  "show_nat n = (if n < 10 then [digit_char n] else show_nat (n div 10) @ [digit_char (n mod 10)])"

declare show_nat.simps [simp del]

definition show_int :: "int \<Rightarrow> string" where
  "show_int i = (if i < 0 then CHR ''-'' # show_nat (nat (- i)) else show_nat (nat i))"

text \<open>\<open>padStart(w, "0")\<close> and the zero padding of \<open>date\<close>'s two-digit fields.\<close>

definition pad0 :: "nat \<Rightarrow> string \<Rightarrow> string" where
  "pad0 w s = replicate (w - length s) CHR ''0'' @ s"

text \<open>An instant, broken into calendar fields.\<close>

record datetime =
  year :: int
  month :: nat
  day :: nat
  hour :: nat
  minute :: nat
  second :: nat
  millisecond :: nat



text \<open>
  \<open>spawnJob\<close> (server/lib/runner.ts): the arguments it passes to runner.sh, and the run id
  it returns, \<open>new Date().toISOString().replace(/[-:T]/g, "").slice(0, 15)\<close> after the name.
\<close>

definition spawnJob_args :: "string \<Rightarrow> bool \<Rightarrow> string list" where
  "spawnJob_args jobNameOrPrompt isInline =
     (if isInline then [''--prompt'', jobNameOrPrompt] else [jobNameOrPrompt])"



text \<open>runner.sh: \<open>TIMESTAMP="$(date +%Y%m%d-%H%M%S)"\<close> and \<open>RUN_ID="${JOB_NAME}-${TIMESTAMP}"\<close>.\<close>

definition TIMESTAMP :: "datetime \<Rightarrow> string" where
  "TIMESTAMP now =
     show_int (year now) @ pad0 2 (show_nat (month now)) @ pad0 2 (show_nat (day now)) @ ''-''
     @ pad0 2 (show_nat (hour now)) @ pad0 2 (show_nat (minute now)) @ pad0 2 (show_nat (second now))"

definition RUN_ID :: "string \<Rightarrow> datetime \<Rightarrow> string" where
  "RUN_ID JOB_NAME now = JOB_NAME @ ''-'' @ TIMESTAMP now"


text \<open>The class \<open>[0-9]\<close>.\<close>

definition is_digit :: "char \<Rightarrow> bool" where
  "is_digit c = (c \<in> set ''0123456789'')"


section \<open>The runner script (runner.sh)\<close>

text \<open>
  The values runner.sh loads from a job file with \<open>load_job\<close>: \<open>JOB_RETRIES\<close> is the
  integer the loop test compares with (\<open>0\<close> when the key is absent), \<open>JOB_ENABLED\<close> the
  printed value of the \<open>enabled\<close> key (empty when absent).
\<close>

record job_values =
  PROMPT :: string
  JOB_RETRIES :: int
  JOB_TIMEOUT :: string
  JOB_ENABLED :: string

text \<open>
  Lines of the structured log and the output of the command, in the order they are
  appended to the log file of the run.
\<close>

datatype log_entry =
    Starting string string
  | Attempt nat int
  | Running_claude
  | Command_output nat
  | Claude_finished int
  | Completed_successfully
  | Failed_with int
  | Retrying_in_5_seconds
  | Done_with int
  | Already_running

text \<open>The variables of the retry loop, the log file and the calls of \<open>sleep\<close>.\<close>

record loop_state =
  ATTEMPT :: nat
  EXIT_CODE :: int
  LOG :: "log_entry list"
  sleeps :: "nat list"

text \<open>
  \<open>while [ "$ATTEMPT" -le "$MAX_RETRIES" ]; do ... done\<close>. \<open>claude k\<close> is the exit status
  of the k-th execution of the command (with its timeout wrapper, when one is set).
\<close>

function retry_loop :: "(nat \<Rightarrow> int) \<Rightarrow> int \<Rightarrow> loop_state \<Rightarrow> loop_state" where
  "retry_loop claude MAX_RETRIES s =
     (if int (ATTEMPT s) \<le> MAX_RETRIES then
        (let a = ATTEMPT s + 1;
             code = claude a;
             s1 = s \<lparr> ATTEMPT := a, EXIT_CODE := code,
                     LOG := LOG s @ [Attempt a (MAX_RETRIES + 1), Running_claude, Command_output a,
                                     Claude_finished code] \<rparr>
         in if code = 0
            then s1 \<lparr> LOG := LOG s1 @ [Completed_successfully] \<rparr>
            else if int a \<le> MAX_RETRIES
            then retry_loop claude MAX_RETRIES
                   (s1 \<lparr> LOG := LOG s1 @ [Failed_with code, Retrying_in_5_seconds],
                         sleeps := sleeps s1 @ [5] \<rparr>)
            else retry_loop claude MAX_RETRIES (s1 \<lparr> LOG := LOG s1 @ [Failed_with code] \<rparr>))
      else s)"
  by pat_completeness auto
termination
  by (relation "measure (\<lambda>(claude, MAX_RETRIES, s). nat (MAX_RETRIES + 1 - int (ATTEMPT s)))") auto

declare retry_loop.simps [simp del]

text \<open>
  What runner.sh reads and writes: the job files of \<open>jobs.local/\<close> and \<open>jobs/\<close>, the lock
  directories, the state file and the log files (by path).
\<close>

record runner_sys =
  jobs_local :: "string \<Rightarrow> job_values option"
  jobs :: "string \<Rightarrow> job_values option"
  locks :: "string set"
  state_json :: state_file
  log_files :: "string \<Rightarrow> log_entry list"
  slept :: "nat list"

text \<open>
  The environment of one run: the home directory, the clock readings (\<open>START_TIME\<close> and
  \<open>END_TIME\<close> are what \<open>date -u\<close> prints), and \<open>unquoted_run\<close>, see \<open>run_job\<close>.
\<close>

record runner_env =
  HOME :: string
  local_time :: datetime
  START_TIME :: string
  END_TIME :: string
  JOB_WORKDIR :: string
  unquoted_run :: "runner_sys \<Rightarrow> string \<Rightarrow> int \<times> runner_sys"

text \<open>
  The state scripts are JavaScript that the shell builds by writing \<open>STATE_FILE\<close>,
  \<open>RUN_ID\<close>, \<open>JOB_NAME\<close> and \<open>LOG_FILE\<close> between single quotes. A string with a
  quote, a backslash or a line break is then not the string literal it is meant to be.
\<close>

definition splice_safe :: "string \<Rightarrow> bool" where
  "splice_safe s = list_all (\<lambda>c. c \<noteq> CHR 0x27 \<and> c \<noteq> CHR 0x5C \<and> c \<noteq> CHR 0x0A \<and> c \<noteq> CHR 0x0D) s"

definition LOG_FILE :: "runner_env \<Rightarrow> string \<Rightarrow> string" where
  "LOG_FILE env JOB_NAME = HOME env @ ''/.claude-runner/logs/'' @ RUN_ID JOB_NAME (local_time env) @ ''.log''"

text \<open>
  From the lock to the exit: \<open>acquire_lock\<close> (exit 2 when the lock directory exists), the
  running entry, the retry loop, the final entry. The lock is released by the exit trap.
  When the home directory or the job name is not \<open>splice_safe\<close>, the script that should
  write the running entry is another program: most often a syntax error, with which
  runner.sh exits under \<open>set -e\<close> before any attempt. What the run does then is not
  modelled; it is the parameter \<open>unquoted_run\<close> of the environment.
\<close>

definition run_job ::
  "(nat \<Rightarrow> int) \<Rightarrow> runner_env \<Rightarrow> runner_sys \<Rightarrow> string \<Rightarrow> int \<Rightarrow> int \<times> runner_sys" where
  "run_job claude env sys JOB_NAME MAX_RETRIES =
     (let rid = RUN_ID JOB_NAME (local_time env);
          lf = LOG_FILE env JOB_NAME
      in if JOB_NAME \<in> locks sys
         then (2, sys \<lparr> log_files := (log_files sys)(lf := log_files sys lf @ [Already_running]) \<rparr>)
         else if \<not> (splice_safe (HOME env) \<and> splice_safe JOB_NAME)
         then unquoted_run env sys JOB_NAME
         else
           (let log0 = log_files sys lf @ [Starting JOB_NAME rid];
                st1 = write_running (state_json sys) (running_entry rid JOB_NAME (START_TIME env) lf);
                s = retry_loop claude MAX_RETRIES
                      \<lparr> ATTEMPT = 0, EXIT_CODE = 1, LOG = log0, sleeps = [] \<rparr>;
                st2 = final_update st1
                        (final_entry rid JOB_NAME (START_TIME env) (END_TIME env) (EXIT_CODE s)
                           (int (ATTEMPT s)) lf)
            in (EXIT_CODE s,
                sys \<lparr> state_json := st2,
                      log_files := (log_files sys)(lf := LOG s @ [Done_with (EXIT_CODE s)]),
                      slept := slept sys @ sleeps s \<rparr>)))"

text \<open>
  The script from its arguments: usage error, ad-hoc prompt, or a named job looked up in
  \<open>jobs.local/\<close> and then \<open>jobs/\<close>; a named job whose \<open>enabled\<close> prints as \<open>false\<close>
  exits 0 before the lock is taken. A job has values when its file exists and \<open>load_job\<close>
  reads it; where \<open>load_job\<close> fails the script exits non-zero under \<open>set -e\<close>, as it does
  for a missing file.
\<close>

definition runner :: "(nat \<Rightarrow> int) \<Rightarrow> runner_env \<Rightarrow> runner_sys \<Rightarrow> string list \<Rightarrow> int \<times> runner_sys" where
  "runner claude env sys argv =
     (case argv of
        [] \<Rightarrow> (1, sys)
      | a # rest \<Rightarrow>
          if a = ''--prompt'' then run_job claude env sys ''adhoc'' 0
          else (case (case jobs_local sys a of Some v \<Rightarrow> Some v | None \<Rightarrow> jobs sys a) of
                  None \<Rightarrow> (1, sys)
                | Some v \<Rightarrow>
                    if JOB_ENABLED v = ''false'' then (0, sys)
                    else run_job claude env sys a (JOB_RETRIES v)))"

text \<open>
  The two ways a named job is started: the launchd agent that setup.sh installs for its
  schedule (\<open>ProgramArguments\<close>: the runner and the job name), and \<open>spawnJob\<close> behind
  \<open>POST /api/runs/trigger/:jobName\<close>.
\<close>

datatype trigger = Scheduled | Manual

definition trigger_args :: "trigger \<Rightarrow> string \<Rightarrow> string list" where
  "trigger_args t JOB_NAME = (case t of Scheduled \<Rightarrow> [JOB_NAME] | Manual \<Rightarrow> spawnJob_args JOB_NAME False)"



definition my_job :: job_values where
  "my_job = \<lparr> PROMPT = ''hello'', JOB_RETRIES = 1, JOB_TIMEOUT = [], JOB_ENABLED = [] \<rparr>"


definition demo_sys :: runner_sys where
  "demo_sys =
     \<lparr> jobs_local = (\<lambda>n. None),
       jobs = (\<lambda>n. if n = ''my-job'' then Some my_job else None),
       locks = {}, state_json = None, log_files = (\<lambda>p. []), slept = [] \<rparr>"


definition paused_sys :: runner_sys where
  "paused_sys =
     demo_sys \<lparr> jobs := (\<lambda>n. if n = ''my-job'' then Some (my_job \<lparr> JOB_ENABLED := ''false'' \<rparr>) else None) \<rparr>"


section \<open>Job definitions (server/lib/jobs.ts)\<close>

text \<open>
  A parsed YAML document. A mapping is a JavaScript object: its keys in insertion order,
  each once.
\<close>

datatype yaml = YNull | YBool bool | YNum int | YStr string | YSeq "yaml list"
  | YMap "(string \<times> yaml) list"

text \<open>\<open>obj[k] = v\<close> and \<open>delete obj[k]\<close> on the entries of an object.\<close>

fun obj_set :: "string \<Rightarrow> yaml \<Rightarrow> (string \<times> yaml) list \<Rightarrow> (string \<times> yaml) list" where
  "obj_set k v [] = [(k, v)]"
| "obj_set k v ((k', v') # kvs) = (if k' = k then (k, v) # kvs else (k', v') # obj_set k v kvs)"

fun obj_delete :: "string \<Rightarrow> (string \<times> yaml) list \<Rightarrow> (string \<times> yaml) list" where
  "obj_delete k [] = []"
| "obj_delete k ((k', v') # kvs) = (if k' = k then kvs else (k', v') # obj_delete k kvs)"

text \<open>The job files of \<open>jobs.local/\<close> and \<open>jobs/\<close> by job name, with their text.\<close>

record job_files =
  local_yaml :: "string \<Rightarrow> string option"
  shared_yaml :: "string \<Rightarrow> string option"

text \<open>\<open>JOB_NAME_RE = /^[a-z0-9-]+$/\<close>\<close>

definition validateJobName :: "string \<Rightarrow> bool" where
  "validateJobName name =
     (name \<noteq> [] \<and> list_all (\<lambda>c. c \<in> set ''abcdefghijklmnopqrstuvwxyz0123456789-'') name)"

datatype location = In_local | In_shared

definition resolveJobFile :: "job_files \<Rightarrow> string \<Rightarrow> (location \<times> string) option" where
  "resolveJobFile fs name =
     (case local_yaml fs name of
        Some raw \<Rightarrow> Some (In_local, raw)
      | None \<Rightarrow> (case shared_yaml fs name of Some raw \<Rightarrow> Some (In_shared, raw) | None \<Rightarrow> None))"

definition writeFileSync :: "job_files \<Rightarrow> location \<Rightarrow> string \<Rightarrow> string \<Rightarrow> job_files" where
  "writeFileSync fs loc name text =
     (case loc of
        In_local \<Rightarrow> fs \<lparr> local_yaml := (local_yaml fs)(name := Some text) \<rparr>
      | In_shared \<Rightarrow> fs \<lparr> shared_yaml := (shared_yaml fs)(name := Some text) \<rparr>)"

text \<open>
  \<open>getJobDefinition\<close> and \<open>toggleJob\<close>. The parser and printer of js-yaml are parameters:
  \<open>loadYaml\<close> gives \<open>None\<close> where the library throws. Reading \<open>enabled\<close> of an empty
  document and assigning to a property of a scalar throw as well; the re-sync of the
  schedule that follows the write is best effort and left out.
\<close>

definition getJobDefinition :: "(string \<Rightarrow> yaml option) \<Rightarrow> job_files \<Rightarrow> string \<Rightarrow> yaml option" where
  "getJobDefinition loadYaml fs name =
     (case resolveJobFile fs name of None \<Rightarrow> None | Some (loc, raw) \<Rightarrow> loadYaml raw)"

datatype toggle_result = Toggled bool | Toggle_error string

definition toggleJob ::
  "(string \<Rightarrow> yaml option) \<Rightarrow> (yaml \<Rightarrow> string) \<Rightarrow> job_files \<Rightarrow> string \<Rightarrow> toggle_result \<times> job_files" where
  "toggleJob loadYaml dumpYaml fs name =
     (if \<not> validateJobName name then (Toggle_error ''Invalid job name'', fs)
      else (case resolveJobFile fs name of
              None \<Rightarrow> (Toggle_error (''Job not found: '' @ name), fs)
            | Some (loc, raw) \<Rightarrow>
                (case loadYaml raw of
                   None \<Rightarrow> (Toggle_error ''Toggle failed'', fs)
                 | Some (YMap kvs) \<Rightarrow>
                     (let wasEnabled = (map_of kvs ''enabled'' \<noteq> Some (YBool False));
                          parsed = (if wasEnabled then obj_set ''enabled'' (YBool False) kvs
                                    else obj_delete ''enabled'' kvs)
                      in (Toggled (\<not> wasEnabled), writeFileSync fs loc name (dumpYaml (YMap parsed))))
                 | Some (YSeq xs) \<Rightarrow> (Toggled False, writeFileSync fs loc name (dumpYaml (YSeq xs)))
                 | Some other \<Rightarrow> (Toggle_error ''Toggle failed'', fs))))"

text \<open>
  The job of the toggle tests, \<open>prompt: hello\<close>, and js-yaml on the two documents the
  toggle writes for it.
\<close>

definition toggle_on :: job_files where
  "toggle_on = \<lparr> local_yaml = (\<lambda>n. None),
                  shared_yaml = (\<lambda>n. if n = ''toggle-on'' then Some ''prompt: hello\<newline>'' else None) \<rparr>"

definition load_two :: "string \<Rightarrow> yaml option" where
  "load_two raw =
     (if raw = ''prompt: hello\<newline>'' then Some (YMap [(''prompt'', YStr ''hello'')])
      else if raw = ''prompt: hello\<newline>enabled: false\<newline>''
      then Some (YMap [(''prompt'', YStr ''hello''), (''enabled'', YBool False)])
      else None)"

definition dump_two :: "yaml \<Rightarrow> string" where
  "dump_two v =
     (if v = YMap [(''prompt'', YStr ''hello'')] then ''prompt: hello\<newline>''
      else if v = YMap [(''prompt'', YStr ''hello''), (''enabled'', YBool False)]
      then ''prompt: hello\<newline>enabled: false\<newline>''
      else [])"


section \<open>Authentication (server/index.ts)\<close>

text \<open>
  What the middlewares read of a request: its method, its path, the \<open>Authorization\<close>
  header and the \<open>token\<close> query parameter.
\<close>

record request =
  req_method :: string
  req_path :: string
  authorization :: "string option"
  query_token :: "string option"

text \<open>
  The secret is whatever js-yaml loads for the key \<open>auth_token\<close>: a string when the
  value is quoted or does not read as another scalar, else a number, a boolean, null, a
  sequence or a mapping (the cast \<open>as Config\<close> checks nothing). The values that
  JavaScript takes for false:
\<close>

fun js_falsy :: "yaml \<Rightarrow> bool" where
  "js_falsy YNull = True"
| "js_falsy (YBool b) = (\<not> b)"
| "js_falsy (YNum n) = (n = 0)"
| "js_falsy (YStr s) = (s = [])"
| "js_falsy (YSeq xs) = False"
| "js_falsy (YMap kvs) = False"

text \<open>
  The conversion to a string of a template literal: an integer in decimal notation, an
  array as its elements joined by commas with \<open>null\<close> elements left empty, a plain object
  as \<open>[object Object]\<close>.
\<close>

fun js_join :: "string list \<Rightarrow> string" where
  "js_join [] = []"
| "js_join [x] = x"
| "js_join (x # y # ys) = x @ '','' @ js_join (y # ys)"

fun js_String :: "yaml \<Rightarrow> string" where
  "js_String YNull = ''null''"
| "js_String (YBool b) = (if b then ''true'' else ''false'')"
| "js_String (YNum n) = show_int n"
| "js_String (YStr s) = s"
| "js_String (YSeq xs) = js_join (map (\<lambda>x. if x = YNull then [] else js_String x) xs)"
| "js_String (YMap kvs) = ''[object Object]''"

text \<open>
  \<open>export const AUTH_TOKEN = config.auth_token || ""\<close> (server/lib/config.ts); the
  argument is \<open>None\<close> when neither configuration file has the key.
\<close>

definition AUTH_TOKEN :: "yaml option \<Rightarrow> yaml" where
  "AUTH_TOKEN auth_token =
     (case auth_token of None \<Rightarrow> YStr [] | Some t \<Rightarrow> if js_falsy t then YStr [] else t)"

datatype middleware_result = Next | Reject nat

text \<open>
  The second middleware. The header is compared with the template literal
  \<open>`Bearer ${AUTH_TOKEN}`\<close>, the query parameter, a string, with the secret itself by
  \<open>===\<close>, which holds for no secret that is not a string.
\<close>

definition auth_middleware :: "yaml \<Rightarrow> request \<Rightarrow> middleware_result" where
  "auth_middleware token req =
     (if js_falsy token \<or> token = YStr ''changeme'' then Next
      else if authorization req = Some (''Bearer '' @ js_String token)
              \<or> (case token of YStr s \<Rightarrow> query_token req = Some s | _ \<Rightarrow> False) then Next
      else Reject 401)"

text \<open>The pattern \<open>/api/*\<close> of \<open>app.use\<close>: \<open>/api\<close> itself and every path below it.\<close>

definition matches_api :: "string \<Rightarrow> bool" where
  "matches_api p = (p = ''/api'' \<or> take 5 p = ''/api/'')"

text \<open>
  The application. For every path under \<open>/api\<close> two middlewares run before any route,
  in the order of their registration. The first is \<open>cors()\<close> of hono with its default
  options: it answers a request of method \<open>OPTIONS\<close> itself, with status 204 and no
  body, and hands every other request on. The second is the token check;
  \<open>GET /api/health\<close> is registered after both. Other paths go to the static front end.
\<close>

datatype response = No_content | Unauthorized | Health_ok | Api_route | Static_file

definition route :: "request \<Rightarrow> response" where
  "route req =
     (if req_method req = ''GET'' \<and> req_path req = ''/api/health'' then Health_ok else Api_route)"

definition app_fetch :: "yaml \<Rightarrow> request \<Rightarrow> response" where
  "app_fetch token req =
     (if matches_api (req_path req)
      then (if req_method req = ''OPTIONS'' then No_content
            else (case auth_middleware token req of Reject code \<Rightarrow> Unauthorized | Next \<Rightarrow> route req))
      else Static_file)"

definition health_probe :: request where
  "health_probe = \<lparr> req_method = ''GET'', req_path = ''/api/health'', authorization = None,
                     query_token = None \<rparr>"



section \<open>The cron compiler (setup.sh, \<open>cron_to_calendar_interval\<close>)\<close>

subsection \<open>Shell primitives\<close>

text \<open>The characters of the default \<open>IFS\<close>: space, tab, newline.\<close>

definition is_blank :: "char \<Rightarrow> bool" where
  "is_blank c = (c = CHR '' '' \<or> c = CHR 0x09)"

definition is_space :: "char \<Rightarrow> bool" where
  "is_space c = (is_blank c \<or> c = CHR 0x0A)"

text \<open>
  \<open>read -r min hour dom mon dow <<< "$cron"\<close> (the five names carry the suffix \<open>_f\<close>
  here): the first line is split at blanks; each of the first four names takes one word,
  the last takes the rest of the line without the blanks around it. A name for which no
  word is left is empty.
\<close>

definition read_word :: "string \<Rightarrow> string \<times> string" where
  "read_word s =
     (let s' = dropWhile is_blank s
      in (takeWhile (\<lambda>c. \<not> is_blank c) s', dropWhile (\<lambda>c. \<not> is_blank c) s'))"

definition strip_blanks :: "string \<Rightarrow> string" where
  "strip_blanks s = rev (dropWhile is_blank (rev (dropWhile is_blank s)))"

definition read5 :: "string \<Rightarrow> string \<times> string \<times> string \<times> string \<times> string" where
  "read5 cron =
     (let line = takeWhile (\<lambda>c. c \<noteq> CHR 0x0A) cron;
          (min_f, r1) = read_word line;
          (hour_f, r2) = read_word r1;
          (dom_f, r3) = read_word r2;
          (mon_f, r4) = read_word r3
      in (min_f, hour_f, dom_f, mon_f, strip_blanks r4))"

text \<open>
  Word splitting of an unquoted expansion (\<open>for m in $mins\<close>, with \<open>set -f\<close>: no globbing):
  the maximal runs of characters that are not in \<open>IFS\<close>.
\<close>

fun split_words_acc :: "string \<Rightarrow> string \<Rightarrow> string list" where
  "split_words_acc [] w = (if w = [] then [] else [w])"
| "split_words_acc (c # cs) w =
     (if is_space c then (if w = [] then split_words_acc cs [] else w # split_words_acc cs [])
      else split_words_acc cs (w @ [c]))"

definition split_words :: "string \<Rightarrow> string list" where
  "split_words s = split_words_acc s []"

text \<open>
  \<open>IFS=',' read -ra parts <<< "$field"\<close>: the pieces between commas; an empty piece after
  the last comma is dropped, and an empty field gives no piece. (With \<open>set -u\<close>, bash
  before 4.4 stops at the expansion of an empty \<open>parts\<close>; the model is bash 4.4 and later.)
\<close>

fun split_commas_acc :: "string \<Rightarrow> string \<Rightarrow> string list" where
  "split_commas_acc [] p = (if p = [] then [] else [p])"
| "split_commas_acc (c # cs) p =
     (if c = CHR '','' then p # split_commas_acc cs [] else split_commas_acc cs (p @ [c]))"

definition split_commas :: "string \<Rightarrow> string list" where
  "split_commas field = split_commas_acc (takeWhile (\<lambda>c. c \<noteq> CHR 0x0A) field) []"

text \<open>\<open>${s#*c}\<close> removes up to the first \<open>c\<close>; \<open>${s%c*}\<close> removes from the last \<open>c\<close> on.\<close>

definition after_first :: "char \<Rightarrow> string \<Rightarrow> string" where
  "after_first c s = (if c \<in> set s then tl (dropWhile (\<lambda>x. x \<noteq> c) s) else s)"

definition before_last :: "char \<Rightarrow> string \<Rightarrow> string" where
  "before_last c s = (if c \<in> set s then rev (tl (dropWhile (\<lambda>x. x \<noteq> c) (rev s))) else s)"

text \<open>\<open>grep -qE '^\*/[0-9]+$'\<close> and \<open>grep -qE '^[0-9]+-[0-9]+$'\<close> on a field without newline.\<close>

definition matches_star_step :: "string \<Rightarrow> bool" where
  "matches_star_step field =
     (take 2 field = ''*/'' \<and> drop 2 field \<noteq> [] \<and> list_all is_digit (drop 2 field))"

definition matches_range :: "string \<Rightarrow> bool" where
  "matches_range part =
     (let a = takeWhile is_digit part; r = dropWhile is_digit part
      in a \<noteq> [] \<and> r \<noteq> [] \<and> hd r = CHR ''-'' \<and> tl r \<noteq> [] \<and> list_all is_digit (tl r))"

text \<open>
  Shell arithmetic is on 64-bit signed integers and wraps around. A variable that holds
  digits is read as octal when it starts with \<open>0\<close> (an error when a digit is 8 or 9,
  \<open>None\<close> here) and as decimal otherwise.
\<close>

definition wrap64 :: "int \<Rightarrow> int" where
  "wrap64 i = (i + 2 ^ 63) mod 2 ^ 64 - 2 ^ 63"

definition digit_val :: "char \<Rightarrow> nat" where
  "digit_val c = length (takeWhile (\<lambda>d. d \<noteq> c) ''0123456789'')"

definition from_base :: "nat \<Rightarrow> string \<Rightarrow> nat" where
  "from_base b ds = foldl (\<lambda>acc c. acc * b + digit_val c) 0 ds"

definition bash_int :: "string \<Rightarrow> int option" where
  "bash_int ds =
     (if \<not> list_all is_digit ds then None
      else if ds \<noteq> [] \<and> hd ds = CHR ''0''
      then (if list_all (\<lambda>c. digit_val c < 8) (tl ds) then Some (wrap64 (int (from_base 8 (tl ds))))
            else None)
      else Some (wrap64 (int (from_base 10 ds))))"

subsection \<open>\<open>expand_field\<close>\<close>

text \<open>
  \<open>for ((i=0; i<max; i+=step)); do vals="$vals $i"; done\<close> and
  \<open>for ((i=start; i<=end; i++)); do result="$result $i"; done\<close>. Either may run forever
  (step 0, an end at the largest integer): \<open>None\<close> is the loop that does not return.
\<close>

partial_function (option) step_loop :: "int \<Rightarrow> int \<Rightarrow> int \<Rightarrow> string \<Rightarrow> string option" where
  "step_loop i max_v step vals =
     (if i < max_v then step_loop (wrap64 (i + step)) max_v step (vals @ '' '' @ show_int i)
      else Some vals)"

partial_function (option) range_loop :: "int \<Rightarrow> int \<Rightarrow> string \<Rightarrow> string option" where
  "range_loop i end_v result =
     (if i \<le> end_v then range_loop (wrap64 (i + 1)) end_v (result @ '' '' @ show_int i)
      else Some result)"

text \<open>
  The loop over the comma-separated parts. A range whose start or end is not a number of
  the shell (an octal with a digit 8 or 9) makes its \<open>for\<close> fail and adds nothing.
\<close>

fun expand_parts :: "string list \<Rightarrow> string \<Rightarrow> string option" where
  "expand_parts [] result = Some result"
| "expand_parts (part # parts) result =
     (if matches_range part
      then (case (bash_int (before_last CHR ''-'' part), bash_int (after_first CHR ''-'' part)) of
              (Some start, Some end_v) \<Rightarrow>
                (case range_loop start end_v result of
                   None \<Rightarrow> None
                 | Some result' \<Rightarrow> expand_parts parts result')
            | _ \<Rightarrow> expand_parts parts result)
      else expand_parts parts (result @ '' '' @ part))"

text \<open>
  \<open>expand_field\<close> prints the values separated by spaces, \<open>*\<close> for the wildcard. A step
  that is not a number of the shell ends the loop at its first update, after the value 0.
\<close>

definition expand_field :: "string \<Rightarrow> int \<Rightarrow> string option" where
  "expand_field field max_v =
     (if field = ''*'' then Some ''*''
      else if matches_star_step field
      then (case bash_int (after_first CHR ''/'' field) of
              None \<Rightarrow> Some (if 0 < max_v then '' 0'' else [])
            | Some step \<Rightarrow> step_loop 0 max_v step [])
      else expand_parts (split_commas field) [])"

subsection \<open>\<open>generate_dicts\<close> and the compiler\<close>

text \<open>
  One \<open><dict>\<close> of the output, as its \<open><key>\<close>/\<open><integer>\<close> lines in order: the key and
  the text between the \<open><integer>\<close> tags. A value \<open>*\<close> writes no line.
\<close>

type_synonym dict = "(string \<times> string) list"

definition dict_entry :: "string \<Rightarrow> string \<Rightarrow> dict" where
  "dict_entry key v = (if v \<noteq> ''*'' then [(key, v)] else [])"

definition generate_dicts :: "string \<Rightarrow> string \<Rightarrow> string \<Rightarrow> string \<Rightarrow> string \<Rightarrow> dict list" where
  "generate_dicts mins hours doms mons dows =
     concat (map (\<lambda>m.
       concat (map (\<lambda>h.
         concat (map (\<lambda>d.
           concat (map (\<lambda>mo.
             map (\<lambda>dw. dict_entry ''Minute'' m @ dict_entry ''Hour'' h @ dict_entry ''Day'' d
                          @ dict_entry ''Month'' mo @ dict_entry ''Weekday'' dw)
               (split_words dows))
           (split_words mons)))
         (split_words doms)))
       (split_words hours)))
     (split_words mins))"

text \<open>
  The lines \<open>generate_dicts\<close> prints for one dict, and \<open>grep -c '<dict>'\<close>: the number
  of lines in which the pattern occurs.
\<close>

definition dict_lines :: "dict \<Rightarrow> string list" where
  "dict_lines d =
     ''      <dict>''
     # map (\<lambda>(key, v). ''        <key>'' @ key @ ''</key><integer>'' @ v @ ''</integer>'') d
     @ [''      </dict>'']"

fun has_infix :: "string \<Rightarrow> string \<Rightarrow> bool" where
  "has_infix p [] = (p = [])"
| "has_infix p (c # cs) = (take (length p) (c # cs) = p \<or> has_infix p cs)"

definition grep_c :: "string \<Rightarrow> string list \<Rightarrow> nat" where
  "grep_c p ls = length (filter (has_infix p) ls)"

text \<open>
  The compiler. Its output is the dicts it printed, bare when \<open>count\<close> is 1 (then there
  is exactly one) and inside \<open><array>\<close> otherwise; \<open>None\<close> when an expansion does not
  return.
\<close>

datatype calendar_interval = Single_dict dict | Array_of "dict list"

definition dicts_of :: "calendar_interval \<Rightarrow> dict list" where
  "dicts_of c = (case c of Single_dict d \<Rightarrow> [d] | Array_of ds \<Rightarrow> ds)"

definition cron_to_calendar_interval :: "string \<Rightarrow> calendar_interval option" where
  "cron_to_calendar_interval cron =
     (case read5 cron of
        (min_f, hour_f, dom_f, mon_f, dow_f) \<Rightarrow>
          (case expand_field min_f 60 of None \<Rightarrow> None | Some min_vals \<Rightarrow>
          (case expand_field hour_f 24 of None \<Rightarrow> None | Some hour_vals \<Rightarrow>
          (case expand_field dom_f 32 of None \<Rightarrow> None | Some dom_vals \<Rightarrow>
          (case expand_field mon_f 13 of None \<Rightarrow> None | Some mon_vals \<Rightarrow>
          (case expand_field dow_f 7 of None \<Rightarrow> None | Some dow_vals \<Rightarrow>
             (let dicts = generate_dicts min_vals hour_vals dom_vals mon_vals dow_vals;
                  count = grep_c ''<dict>'' (concat (map dict_lines dicts))
              in Some (if count = 1 then Single_dict (hd dicts) else Array_of dicts))))))))"


subsection \<open>Valid expressions\<close>



definition dec_val :: "string \<Rightarrow> nat" where
  "dec_val s = from_base 10 s"






text \<open>The values one field contributes: the words of what \<open>expand_field\<close> prints.\<close>

definition expansion :: "string \<Rightarrow> int \<Rightarrow> string list" where
  "expansion field max_v =
     (case expand_field field max_v of None \<Rightarrow> [] | Some vals \<Rightarrow> split_words vals)"





text \<open>The domain of the field a key stands for.\<close>

definition in_domain :: "string \<Rightarrow> nat \<Rightarrow> bool" where
  "in_domain key n =
     (if key = ''Minute'' then n \<le> 59
      else if key = ''Hour'' then n \<le> 23
      else if key = ''Day'' then 1 \<le> n \<and> n \<le> 31
      else if key = ''Month'' then 1 \<le> n \<and> n \<le> 12
      else if key = ''Weekday'' then n \<le> 6
      else False)"



section \<open>Proofs: retention cap\<close>

lemma keep_last_100_drop: "keep_last_100 xs = drop (length xs - 100) xs"
  by (simp add: keep_last_100_def js_slice_def Let_def nat_diff_distrib')

lemma keep_last_100_length: "length (keep_last_100 xs) = min 100 (length xs)"
  by (simp add: keep_last_100_drop)

lemma findIndex_Some: "findIndex p xs = Some i \<Longrightarrow> i < length xs \<and> p (xs ! i) \<and> (\<forall>j<i. \<not> p (xs ! j))"
proof (induction xs arbitrary: i)
  case Nil
  then show ?case by simp
next
  case (Cons x xs)
  then show ?case
    by (auto split: if_splits option.splits simp: nth_Cons split: nat.splits)
qed

lemma findIndex_None: "findIndex p xs = None \<longleftrightarrow> (\<forall>x\<in>set xs. \<not> p x)"
  by (induction xs) (auto split: option.splits)

lemma find_findIndex: "find p xs = (case findIndex p xs of None \<Rightarrow> None | Some i \<Rightarrow> Some (xs ! i))"
  by (induction xs) (auto split: option.splits)

lemma findIndex_first:
  "(\<exists>x\<in>set xs. p x) \<Longrightarrow>
     \<exists>i. findIndex p xs = Some i \<and> i < length xs \<and> p (xs ! i) \<and> (\<forall>j<i. \<not> p (xs ! j))"
proof -
  assume "\<exists>x\<in>set xs. p x"
  then have "findIndex p xs \<noteq> None" by (simp add: findIndex_None)
  then obtain i where i: "findIndex p xs = Some i" by blast
  then show ?thesis using findIndex_Some[OF i] by blast
qed

lemma replace_or_push_absent:
  "\<forall>r\<in>set runs. runId r \<noteq> runId e \<Longrightarrow> replace_or_push runs e = runs @ [e]"
proof -
  assume "\<forall>r\<in>set runs. runId r \<noteq> runId e"
  then have "findIndex (\<lambda>r. runId r = runId e) runs = None" by (simp add: findIndex_None)
  then show ?thesis by (simp add: replace_or_push_def)
qed

lemma replace_or_push_present:
  assumes "\<exists>r\<in>set runs. runId r = runId e"
  shows "\<exists>i. i < length runs \<and> runId (runs ! i) = runId e \<and> (\<forall>j<i. runId (runs ! j) \<noteq> runId e)
             \<and> replace_or_push runs e = runs[i := e]"
proof -
  obtain i where i: "findIndex (\<lambda>r. runId r = runId e) runs = Some i" "i < length runs"
    "runId (runs ! i) = runId e" "\<forall>j<i. runId (runs ! j) \<noteq> runId e"
    using findIndex_first[of runs "\<lambda>r. runId r = runId e"] assms by blast
  have "replace_or_push runs e = runs[i := e]" using i(1) by (simp add: replace_or_push_def)
  then show ?thesis using i by blast
qed

text \<open>
  C6. After an append the store holds at most 100 records: the appended record is the last
  one and the stored list is the appended list without its oldest \<open>length - 100\<close>
  records. The same holds for the final update of a run when it has to push its entry;
  when a record with the run's id exists, the first such record is replaced in place and
  the list is cut to its newest 100 in the same way.
\<close>

theorem append_keeps_newest_100:
  "write_running sf e = Some (drop (length (getRecentRuns sf) + 1 - 100) (getRecentRuns sf @ [e]))
   \<and> length (the (write_running sf e)) = min 100 (length (getRecentRuns sf) + 1)
   \<and> length (the (write_running sf e)) \<le> 100
   \<and> last (the (write_running sf e)) = e
   \<and> take (length (getRecentRuns sf) + 1 - 100) (getRecentRuns sf @ [e]) @ the (write_running sf e)
       = getRecentRuns sf @ [e]
   \<and> length (the (final_update sf e)) \<le> 100
   \<and> ((\<forall>r\<in>set (getRecentRuns sf). runId r \<noteq> runId e) \<longrightarrow>
        final_update sf e = Some (drop (length (getRecentRuns sf) + 1 - 100) (getRecentRuns sf @ [e]))
        \<and> last (the (final_update sf e)) = e
        \<and> take (length (getRecentRuns sf) + 1 - 100) (getRecentRuns sf @ [e]) @ the (final_update sf e)
            = getRecentRuns sf @ [e])
   \<and> ((\<exists>r\<in>set (getRecentRuns sf). runId r = runId e) \<longrightarrow>
        (\<exists>i. i < length (getRecentRuns sf) \<and> runId (getRecentRuns sf ! i) = runId e
             \<and> (\<forall>j<i. runId (getRecentRuns sf ! j) \<noteq> runId e)
             \<and> final_update sf e
                 = Some (drop (length (getRecentRuns sf) - 100) ((getRecentRuns sf)[i := e]))))"
proof -
  have a: "write_running sf e = Some (drop (length (getRecentRuns sf) + 1 - 100) (getRecentRuns sf @ [e]))
   \<and> length (the (write_running sf e)) = min 100 (length (getRecentRuns sf) + 1)
   \<and> length (the (write_running sf e)) \<le> 100
   \<and> last (the (write_running sf e)) = e
   \<and> take (length (getRecentRuns sf) + 1 - 100) (getRecentRuns sf @ [e]) @ the (write_running sf e)
       = getRecentRuns sf @ [e]
   \<and> length (the (final_update sf e)) \<le> 100"
    by (auto simp add: write_running_def final_update_def keep_last_100_drop)
  have b: "(\<forall>r\<in>set (getRecentRuns sf). runId r \<noteq> runId e) \<longrightarrow>
        final_update sf e = Some (drop (length (getRecentRuns sf) + 1 - 100) (getRecentRuns sf @ [e]))
        \<and> last (the (final_update sf e)) = e
        \<and> take (length (getRecentRuns sf) + 1 - 100) (getRecentRuns sf @ [e]) @ the (final_update sf e)
            = getRecentRuns sf @ [e]"
  proof
    assume "\<forall>r\<in>set (getRecentRuns sf). runId r \<noteq> runId e"
    then have "replace_or_push (getRecentRuns sf) e = getRecentRuns sf @ [e]"
      by (rule replace_or_push_absent)
    then show "final_update sf e = Some (drop (length (getRecentRuns sf) + 1 - 100) (getRecentRuns sf @ [e]))
        \<and> last (the (final_update sf e)) = e
        \<and> take (length (getRecentRuns sf) + 1 - 100) (getRecentRuns sf @ [e]) @ the (final_update sf e)
            = getRecentRuns sf @ [e]"
      by (auto simp add: final_update_def keep_last_100_drop)
  qed
  have c: "(\<exists>r\<in>set (getRecentRuns sf). runId r = runId e) \<longrightarrow>
        (\<exists>i. i < length (getRecentRuns sf) \<and> runId (getRecentRuns sf ! i) = runId e
             \<and> (\<forall>j<i. runId (getRecentRuns sf ! j) \<noteq> runId e)
             \<and> final_update sf e
                 = Some (drop (length (getRecentRuns sf) - 100) ((getRecentRuns sf)[i := e])))"
  proof
    assume "\<exists>r\<in>set (getRecentRuns sf). runId r = runId e"
    then obtain i where i: "i < length (getRecentRuns sf)" "runId (getRecentRuns sf ! i) = runId e"
      "\<forall>j<i. runId (getRecentRuns sf ! j) \<noteq> runId e"
      "replace_or_push (getRecentRuns sf) e = (getRecentRuns sf)[i := e]"
      using replace_or_push_present by blast
    have "final_update sf e = Some (drop (length (getRecentRuns sf) - 100) ((getRecentRuns sf)[i := e]))"
      by (simp add: final_update_def i(4) keep_last_100_drop)
    then show "\<exists>i. i < length (getRecentRuns sf) \<and> runId (getRecentRuns sf ! i) = runId e
             \<and> (\<forall>j<i. runId (getRecentRuns sf ! j) \<noteq> runId e)
             \<and> final_update sf e
                 = Some (drop (length (getRecentRuns sf) - 100) ((getRecentRuns sf)[i := e]))"
      using i(1,2,3) by blast
  qed
  show ?thesis using a b c by blast
qed

theorem append_keeps_newest_100_witness:
  "write_running (Some (replicate 100 (running_entry ''old'' ''alpha'' ''t0'' ''/l/old'')))
       (running_entry ''new'' ''alpha'' ''t1'' ''/l/new'')
     = Some (replicate 99 (running_entry ''old'' ''alpha'' ''t0'' ''/l/old'')
             @ [running_entry ''new'' ''alpha'' ''t1'' ''/l/new''])
   \<and> final_update (Some (replicate 100 (running_entry ''old'' ''alpha'' ''t0'' ''/l/old'')))
       (running_entry ''new'' ''alpha'' ''t1'' ''/l/new'')
     = Some (replicate 99 (running_entry ''old'' ''alpha'' ''t0'' ''/l/old'')
             @ [running_entry ''new'' ''alpha'' ''t1'' ''/l/new''])"
proof -
  let ?old = "running_entry ''old'' ''alpha'' ''t0'' ''/l/old''"
  let ?new = "running_entry ''new'' ''alpha'' ''t1'' ''/l/new''"
  have g: "getRecentRuns (Some (replicate 100 ?old)) = replicate 100 ?old"
    by (simp add: getRecentRuns_def)
  have f: "\<forall>r\<in>set (getRecentRuns (Some (replicate 100 ?old))). runId r \<noteq> runId ?new"
    unfolding g by (simp add: running_entry_def)
  have d: "drop (length (replicate 100 ?old) + 1 - 100) (replicate 100 ?old @ [?new])
             = replicate 99 ?old @ [?new]"
    by simp
  note t = append_keeps_newest_100[of "Some (replicate 100 ?old)" ?new]
  have w: "write_running (Some (replicate 100 ?old)) ?new = Some (replicate 99 ?old @ [?new])"
    using t unfolding g d by blast
  have u: "final_update (Some (replicate 100 ?old)) ?new = Some (replicate 99 ?old @ [?new])"
    using t f unfolding g d by blast
  show ?thesis using w u by (rule conjI)
qed

section \<open>Proofs: deletion\<close>

lemma unlink_log_diff: "unlink_log uf files lf = files - {x. x = lf \<and> lf \<noteq> [] \<and> \<not> uf lf}"
  by (auto simp: unlink_log_def)

lemma deleteRuns_loop_eq:
  "deleteRuns_loop uf ids runs (k, d, f) =
     (k @ filter (\<lambda>r. runId r \<notin> ids \<or> status r = Some ''running'') runs,
      d + length (filter (\<lambda>r. \<not> (runId r \<notin> ids \<or> status r = Some ''running'')) runs),
      f - removed_logs uf (filter (\<lambda>r. \<not> (runId r \<notin> ids \<or> status r = Some ''running'')) runs))"
proof (induction runs arbitrary: k d f)
  case Nil
  then show ?case by (simp add: removed_logs_def)
next
  case (Cons r rs)
  show ?case
  proof (cases "runId r \<notin> ids \<or> status r = Some ''running''")
    case True
    then show ?thesis using Cons.IH by simp
  next
    case False
    then show ?thesis using Cons.IH
      by (auto simp: unlink_log_diff removed_logs_def)
  qed
qed

lemma clearRuns_loop_eq:
  "clearRuns_loop uf flt runs (k, d, f) =
     (k @ filter (\<lambda>r. filtered_out flt r \<or> status r = Some ''running'') runs,
      d + length (filter (\<lambda>r. \<not> (filtered_out flt r \<or> status r = Some ''running'')) runs),
      f - removed_logs uf (filter (\<lambda>r. \<not> (filtered_out flt r \<or> status r = Some ''running'')) runs))"
proof (induction runs arbitrary: k d f)
  case Nil
  then show ?case by (simp add: removed_logs_def)
next
  case (Cons r rs)
  show ?case
  proof (cases "filtered_out flt r \<or> status r = Some ''running''")
    case True
    then show ?thesis using Cons.IH by auto
  next
    case False
    then show ?thesis using Cons.IH
      by (auto simp: unlink_log_diff removed_logs_def)
  qed
qed

lemma remove_first_index:
  "i < length xs \<Longrightarrow> xs ! i = r \<Longrightarrow> (\<forall>j<i. xs ! j \<noteq> r) \<Longrightarrow> take i xs @ drop (Suc i) xs = remove1 r xs"
proof (induction xs arbitrary: i)
  case Nil
  then show ?case by simp
next
  case (Cons x xs)
  show ?case
  proof (cases i)
    case 0
    then show ?thesis using Cons.prems by simp
  next
    case (Suc k)
    have "(x # xs) ! 0 \<noteq> r" using Cons.prems(3) Suc by blast
    then have "x \<noteq> r" by simp
    moreover have "\<forall>j<k. xs ! j \<noteq> r"
    proof (intro allI impI)
      fix j assume "j < k"
      then have "(x # xs) ! Suc j \<noteq> r" using Cons.prems(3) Suc by blast
      then show "xs ! j \<noteq> r" by simp
    qed
    moreover have "k < length xs" "xs ! k = r" using Cons.prems Suc by auto
    ultimately have "x \<noteq> r" "take k xs @ drop (Suc k) xs = remove1 r xs"
      using Cons.IH[of k] by blast+
    then show ?thesis using Suc by simp
  qed
qed

lemma unlink_log_removed: "unlink_log uf files (logFile r) = files - removed_logs uf [r]"
  by (auto simp: unlink_log_def removed_logs_def)

lemma getRunById_index:
  assumes "getRunById (Some runs) rid = Some r"
  shows "\<exists>i. findIndex (\<lambda>x. runId x = rid) runs = Some i \<and> runs ! i = r"
proof -
  have f: "find (\<lambda>x. runId x = rid) runs = Some r"
    using assms by (simp add: getRunById_def getRecentRuns_def)
  show ?thesis
    using f find_findIndex[of "\<lambda>x. runId x = rid" runs]
    by (cases "findIndex (\<lambda>x. runId x = rid) runs") simp_all
qed

lemma deleteRun_found:
  assumes "state fs = Some runs" and "getRunById (Some runs) rid = Some r"
  shows "deleteRun uf fs rid =
           (True, \<lparr> state = Some (remove1 r runs), logs = logs fs - removed_logs uf [r] \<rparr>)"
proof -
  obtain i where i: "findIndex (\<lambda>x. runId x = rid) runs = Some i" and r: "runs ! i = r"
    using getRunById_index[OF assms(2)] by blast
  have lt: "i < length runs"
    using findIndex_Some[OF i] by (rule conjunct1)
  have rid: "runId (runs ! i) = rid"
    using findIndex_Some[OF i] by blast
  have first: "\<forall>j<i. runId (runs ! j) \<noteq> rid"
    using findIndex_Some[OF i] by blast
  have "\<forall>j<i. runs ! j \<noteq> r"
  proof (intro allI impI)
    fix j assume "j < i"
    then have "runId (runs ! j) \<noteq> runId (runs ! i)" using first rid by simp
    then have "runs ! j \<noteq> runs ! i" by (rule contrapos_nn) simp
    then show "runs ! j \<noteq> r" unfolding r[symmetric] .
  qed
  then have rm: "take i runs @ drop (Suc i) runs = remove1 r runs"
    by (rule remove_first_index[OF lt r])
  have "deleteRun uf fs rid =
          (True, \<lparr> state = Some (take i runs @ drop (Suc i) runs),
                   logs = unlink_log uf (logs fs) (logFile (runs ! i)) \<rparr>)"
    using assms(1) i by (simp add: deleteRun_def)
  then show ?thesis
    by (simp only: rm r unlink_log_removed)
qed

lemma deleteRuns_eq:
  assumes "state fs = Some runs"
  shows "deleteRuns uf fs ids =
     (length (filter (\<lambda>r. \<not> (runId r \<notin> set ids \<or> status r = Some ''running'')) runs),
      \<lparr> state = Some (filter (\<lambda>r. runId r \<notin> set ids \<or> status r = Some ''running'') runs),
        logs = logs fs - removed_logs uf
                 (filter (\<lambda>r. \<not> (runId r \<notin> set ids \<or> status r = Some ''running'')) runs) \<rparr>)"
  using assms by (simp add: deleteRuns_def deleteRuns_loop_eq)

lemma clearRuns_eq:
  assumes "state fs = Some runs"
  shows "clearRuns uf fs flt =
     (length (filter (\<lambda>r. \<not> (filtered_out flt r \<or> status r = Some ''running'')) runs),
      \<lparr> state = Some (filter (\<lambda>r. filtered_out flt r \<or> status r = Some ''running'') runs),
        logs = logs fs - removed_logs uf
                 (filter (\<lambda>r. \<not> (filtered_out flt r \<or> status r = Some ''running'')) runs) \<rparr>)"
  using assms by (simp add: clearRuns_def clearRuns_loop_eq)

lemma filter_running_kept:
  "filter (\<lambda>r. status r = Some ''running'') (filter (\<lambda>r. P r \<or> status r = Some ''running'') runs)
     = filter (\<lambda>r. status r = Some ''running'') runs"
  by (induction runs) auto

text \<open>
  C5 (amended). Batch delete and filtered clear keep every record whose status is
  \<open>running\<close> and report only the others as deleted. Delete-by-id in the store removes
  the first record with the id whatever its status; the guard for a running record is in
  the handler of \<open>DELETE /api/runs/:runId\<close>, which answers 400 and leaves the store
  alone. Each record removed loses its log file when the path is non-empty and the unlink
  succeeds; the records removed do not depend on whether the unlink fails.
\<close>

theorem deletion_guards_running:
  assumes "state fs = Some runs"
  shows
    "deleteRuns uf fs ids =
       (length (filter (\<lambda>r. \<not> (runId r \<notin> set ids \<or> status r = Some ''running'')) runs),
        \<lparr> state = Some (filter (\<lambda>r. runId r \<notin> set ids \<or> status r = Some ''running'') runs),
          logs = logs fs - removed_logs uf
                   (filter (\<lambda>r. \<not> (runId r \<notin> set ids \<or> status r = Some ''running'')) runs) \<rparr>)
     \<and> clearRuns uf fs flt =
       (length (filter (\<lambda>r. \<not> (filtered_out flt r \<or> status r = Some ''running'')) runs),
        \<lparr> state = Some (filter (\<lambda>r. filtered_out flt r \<or> status r = Some ''running'') runs),
          logs = logs fs - removed_logs uf
                   (filter (\<lambda>r. \<not> (filtered_out flt r \<or> status r = Some ''running'')) runs) \<rparr>)
     \<and> filter (\<lambda>r. status r = Some ''running'') (getRecentRuns (state (snd (deleteRuns uf fs ids))))
         = filter (\<lambda>r. status r = Some ''running'') runs
     \<and> filter (\<lambda>r. status r = Some ''running'') (getRecentRuns (state (snd (clearRuns uf fs flt))))
         = filter (\<lambda>r. status r = Some ''running'') runs
     \<and> (\<forall>r. getRunById (state fs) rid = Some r \<longrightarrow>
           deleteRun uf fs rid =
             (True, \<lparr> state = Some (remove1 r runs), logs = logs fs - removed_logs uf [r] \<rparr>)
           \<and> delete_run_handler uf fs rid =
               (if status r = Some ''running'' then (400, fs)
                else (200, \<lparr> state = Some (remove1 r runs), logs = logs fs - removed_logs uf [r] \<rparr>)))"
proof -
  have sf: "getRunById (state fs) rid = getRunById (Some runs) rid"
    using assms by simp
  have a: "\<forall>r. getRunById (state fs) rid = Some r \<longrightarrow>
           deleteRun uf fs rid =
             (True, \<lparr> state = Some (remove1 r runs), logs = logs fs - removed_logs uf [r] \<rparr>)
           \<and> delete_run_handler uf fs rid =
               (if status r = Some ''running'' then (400, fs)
                else (200, \<lparr> state = Some (remove1 r runs), logs = logs fs - removed_logs uf [r] \<rparr>))"
  proof (intro allI impI)
    fix r assume g: "getRunById (state fs) rid = Some r"
    then have g': "getRunById (Some runs) rid = Some r" using sf by simp
    have d: "deleteRun uf fs rid =
             (True, \<lparr> state = Some (remove1 r runs), logs = logs fs - removed_logs uf [r] \<rparr>)"
      by (rule deleteRun_found[OF assms g'])
    have h: "delete_run_handler uf fs rid =
               (if status r = Some ''running'' then (400, fs)
                else (200, \<lparr> state = Some (remove1 r runs), logs = logs fs - removed_logs uf [r] \<rparr>))"
      unfolding delete_run_handler_def g d by simp
    show "deleteRun uf fs rid =
             (True, \<lparr> state = Some (remove1 r runs), logs = logs fs - removed_logs uf [r] \<rparr>)
           \<and> delete_run_handler uf fs rid =
               (if status r = Some ''running'' then (400, fs)
                else (200, \<lparr> state = Some (remove1 r runs), logs = logs fs - removed_logs uf [r] \<rparr>))"
      using d h by (rule conjI)
  qed
  have b: "filter (\<lambda>r. status r = Some ''running'') (getRecentRuns (state (snd (deleteRuns uf fs ids))))
         = filter (\<lambda>r. status r = Some ''running'') runs"
    unfolding deleteRuns_eq[OF assms] by (auto simp: getRecentRuns_def intro: filter_cong)
  have c: "filter (\<lambda>r. status r = Some ''running'') (getRecentRuns (state (snd (clearRuns uf fs flt))))
         = filter (\<lambda>r. status r = Some ''running'') runs"
    unfolding clearRuns_eq[OF assms] by (auto simp: getRecentRuns_def intro: filter_cong)
  show ?thesis
    by (intro conjI) (rule deleteRuns_eq[OF assms] clearRuns_eq[OF assms] b c a)+
qed

theorem deletion_guards_running_witness:
  "state sampleStore = Some sampleRuns
   \<and> map runId (getRecentRuns (state (snd (deleteRuns (\<lambda>p. True) sampleStore [''run-1'', ''run-3''])))) = [''run-2'', ''run-3'']
   \<and> fst (deleteRuns (\<lambda>p. True) sampleStore [''run-1'', ''run-3'']) = 1
   \<and> map runId (getRecentRuns (state (snd (clearRuns (\<lambda>p. True) sampleStore None)))) = [''run-3'']
   \<and> delete_run_handler (\<lambda>p. True) sampleStore ''run-3'' = (400, sampleStore)
   \<and> fst (delete_run_handler (\<lambda>p. True) sampleStore ''run-1'') = 200"
proof -
  have s: "state sampleStore = Some sampleRuns" by (simp add: sampleStore_def)
  have g3: "getRunById (state sampleStore) ''run-3'' = Some (sampleRuns ! 2)"
    by (simp add: sampleStore_def sampleRuns_def getRunById_def getRecentRuns_def)
  have g1: "getRunById (state sampleStore) ''run-1'' = Some (sampleRuns ! 0)"
    by (simp add: sampleStore_def sampleRuns_def getRunById_def getRecentRuns_def)
  note t = deletion_guards_running[OF s, of "\<lambda>p. True"  "[''run-1'', ''run-3'']" None]
  have a: "map runId (getRecentRuns (state (snd (deleteRuns (\<lambda>p. True) sampleStore [''run-1'', ''run-3''])))) = [''run-2'', ''run-3'']"
    using t[of "''run-3''"] by (simp add: getRecentRuns_def sampleRuns_def)
  have b: "fst (deleteRuns (\<lambda>p. True) sampleStore [''run-1'', ''run-3'']) = 1"
    using t[of "''run-3''"] by (simp add: sampleRuns_def)
  have c: "map runId (getRecentRuns (state (snd (clearRuns (\<lambda>p. True) sampleStore None)))) = [''run-3'']"
    using t[of "''run-3''"] by (simp add: getRecentRuns_def sampleRuns_def filtered_out_def)
  have d: "delete_run_handler (\<lambda>p. True) sampleStore ''run-3'' = (400, sampleStore)"
    using t[of "''run-3''"] g3 by (simp add: sampleRuns_def)
  have e: "fst (delete_run_handler (\<lambda>p. True) sampleStore ''run-1'') = 200"
    using t[of "''run-1''"] g1 by (simp add: sampleRuns_def)
  show ?thesis using s a b c d e by blast
qed

text \<open>
  C5 as stated fails: \<open>deleteRun\<close> of the store removes a record whose status is
  \<open>running\<close>.
\<close>

theorem deleteRun_removes_running_record:
  "deleteRun (\<lambda>p. False) sampleStore ''run-3'' =
     (True, \<lparr> state = Some (take 2 sampleRuns),
              logs = {''/tmp/fake-log-1.txt'', ''/tmp/fake-log-2.txt''} \<rparr>)
   \<and> status (sampleRuns ! 2) = Some ''running''
   \<and> sampleRuns ! 2 \<notin> set (getRecentRuns (state (snd (deleteRun (\<lambda>p. False) sampleStore ''run-3''))))"
  by (auto simp add: deleteRun_def sampleStore_def sampleRuns_def unlink_log_def getRecentRuns_def)

section \<open>Proofs: killing a job\<close>

lemma object_assign_killed:
  "object_assign r (killed_updates now) =
     r \<lparr> status := Some ''killed'', completedAt := Some now, exitCode := Some 137 \<rparr>"
  by (simp add: object_assign_def killed_updates_def no_updates_def)

lemma list_update_map_distinct:
  assumes "distinct (map k xs)" and "i < length xs" and "k (xs ! i) = a"
  shows "xs[i := v] = map (\<lambda>x. if k x = a then v else x) xs"
proof (rule nth_equalityI)
  show "length (xs[i := v]) = length (map (\<lambda>x. if k x = a then v else x) xs)" by simp
next
  fix j assume "j < length (xs[i := v])"
  then have j: "j < length xs" by simp
  show "xs[i := v] ! j = map (\<lambda>x. if k x = a then v else x) xs ! j"
  proof (cases "j = i")
    case True
    then show ?thesis using assms j by simp
  next
    case False
    have "k (xs ! j) \<noteq> k (xs ! i)"
      using assms(1,2) j False by (metis distinct_conv_nth length_map nth_map)
    then show ?thesis using False j assms(3) by simp
  qed
qed

lemma updateRun_map:
  assumes "distinct (map runId runs)"
  shows "snd (updateRun (Some runs) rid u) =
           Some (map (\<lambda>x. if runId x = rid then object_assign x u else x) runs)"
proof (cases "findIndex (\<lambda>r. runId r = rid) runs")
  case None
  then have "\<forall>x\<in>set runs. runId x \<noteq> rid" by (simp add: findIndex_None)
  then have "map (\<lambda>x. if runId x = rid then object_assign x u else x) runs = runs"
    by (simp add: map_idI)
  then show ?thesis using None by (simp add: updateRun_def)
next
  case (Some i)
  have lt: "i < length runs" and rid: "runId (runs ! i) = rid"
    using findIndex_Some[OF Some] by blast+
  have "runs[i := object_assign (runs ! i) u] =
          map (\<lambda>x. if runId x = rid then object_assign (runs ! i) u else x) runs"
    by (rule list_update_map_distinct[OF assms lt rid])
  also have "\<dots> = map (\<lambda>x. if runId x = rid then object_assign x u else x) runs"
  proof (rule map_cong[OF refl])
    fix x assume x: "x \<in> set runs"
    show "(if runId x = rid then object_assign (runs ! i) u else x) =
          (if runId x = rid then object_assign x u else x)"
    proof (cases "runId x = rid")
      case True
      then have "x = runs ! i"
        using assms x lt rid by (metis distinct_map inj_onD nth_mem)
      then show ?thesis by simp
    next
      case False
      then show ?thesis by simp
    qed
  qed
  finally show ?thesis using Some by (simp add: updateRun_def Let_def)
qed


lemma update_stale_map:
  assumes "distinct (map runId cur)"
  shows "update_stale clock (Some cur) S =
           Some (map (\<lambda>x. if runId x \<in> runId ` set S
                          then x \<lparr> status := Some ''killed'', completedAt := Some (clock (runId x)),
                                   exitCode := Some 137 \<rparr>
                          else x) cur)"
  using assms
proof (induction S arbitrary: cur)
  case Nil
  then show ?case by (simp add: map_idI)
next
  case (Cons r S)
  let ?kill = "\<lambda>x. x \<lparr> status := Some ''killed'', completedAt := Some (clock (runId x)),
                         exitCode := Some 137 \<rparr>"
  let ?cur' = "map (\<lambda>x. if runId x = runId r then ?kill x else x) cur"
  have step: "snd (updateRun (Some cur) (runId r) (killed_updates (clock (runId r)))) = Some ?cur'"
  proof -
    have "snd (updateRun (Some cur) (runId r) (killed_updates (clock (runId r)))) =
            Some (map (\<lambda>x. if runId x = runId r
                            then object_assign x (killed_updates (clock (runId r))) else x) cur)"
      by (rule updateRun_map[OF Cons.prems])
    also have "map (\<lambda>x. if runId x = runId r
                            then object_assign x (killed_updates (clock (runId r))) else x) cur = ?cur'"
      by (rule map_cong[OF refl]) (simp add: object_assign_killed)
    finally show ?thesis .
  qed
  have ids: "map runId ?cur' = map runId cur"
    by (induction cur) simp_all
  have d: "distinct (map runId ?cur')" unfolding ids by (rule Cons.prems)
  have "update_stale clock (Some cur) (r # S) = update_stale clock (Some ?cur') S"
    by (simp only: update_stale.simps step)
  also have "\<dots> = Some (map (\<lambda>x. if runId x \<in> runId ` set S then ?kill x else x) ?cur')"
    by (rule Cons.IH[OF d])
  also have "map (\<lambda>x. if runId x \<in> runId ` set S then ?kill x else x) ?cur' =
             map (\<lambda>x. if runId x \<in> runId ` set (r # S) then ?kill x else x) cur"
    by (induction cur) auto
  finally show ?case .
qed

lemma stale_ids:
  assumes "distinct (map runId runs)" and "x \<in> set runs"
  shows "runId x \<in> runId ` set (filter P runs) \<longleftrightarrow> P x"
proof
  assume "runId x \<in> runId ` set (filter P runs)"
  then obtain y where y: "y \<in> set runs" "P y" "runId x = runId y" by auto
  then have "x = y" using assms by (metis distinct_map inj_onD)
  then show "P x" using y by simp
next
  assume "P x"
  then show "runId x \<in> runId ` set (filter P runs)" using assms(2) by auto
qed

lemma mark_stale_runs_eq:
  assumes "run_state sys = Some runs" and "distinct (map runId runs)"
  shows "mark_stale_runs clock sys name =
     (if \<exists>r\<in>set runs. jobName r = name \<and> status r = Some ''running''
      then \<lparr> killed = True, error = None \<rparr>
      else \<lparr> killed = False, error = Some ''No running process found'' \<rparr>,
      sys \<lparr> run_state := Some (map (force_killed clock name) runs) \<rparr>)"
proof -
  let ?P = "\<lambda>r. jobName r = name \<and> status r = Some ''running''"
  have m: "map (\<lambda>x. if runId x \<in> runId ` set (filter ?P runs)
                          then x \<lparr> status := Some ''killed'', completedAt := Some (clock (runId x)),
                                   exitCode := Some 137 \<rparr>
                          else x) runs = map (force_killed clock name) runs"
  proof (rule map_cong[OF refl])
    fix x assume "x \<in> set runs"
    from stale_ids[OF assms(2) this, of ?P]
    show "(if runId x \<in> runId ` set (filter ?P runs)
                          then x \<lparr> status := Some ''killed'', completedAt := Some (clock (runId x)),
                                   exitCode := Some 137 \<rparr>
                          else x) = force_killed clock name x"
      by (simp add: force_killed_def)
  qed
  have u: "update_stale clock (Some runs) (filter ?P runs) = Some (map (force_killed clock name) runs)"
    by (simp only: update_stale_map[OF assms(2)] m)
  show ?thesis
  proof (cases "\<exists>r\<in>set runs. ?P r")
    case True
    then have "filter ?P runs \<noteq> []" by (simp add: filter_empty_conv)
    then show ?thesis using True assms(1) u
      by (simp add: mark_stale_runs_def getRecentRuns_def Let_def)
  next
    case False
    then have e: "filter ?P runs = []" by (simp add: filter_empty_conv)
    have "map (force_killed clock name) runs = runs"
      using False by (intro map_idI) (auto simp: force_killed_def)
    then show ?thesis using False assms(1) e
      by (simp add: mark_stale_runs_def getRecentRuns_def Let_def)
  qed
qed


text \<open>
  C4 (amended). With run ids unique in the store: when a pid file exists, \<open>killJob\<close>
  signals the recorded process group; unless that call fails with an error other than
  \<open>ESRCH\<close> (then it returns that error and changes nothing else) it removes the pid file
  and the lock directory, and it marks every record of the job that is \<open>running\<close> as
  \<open>killed\<close> with exit code 137, also when no pid file exists. It returns an error exactly
  when the signal call failed so, or the store has no running record of the job, whether
  or not a lock existed.
\<close>

theorem killJob_outcome:
  assumes "run_state sys = Some runs" and "distinct (map runId runs)"
  shows
    "(error (fst (killJob signal clock sys name)) \<noteq> None \<longleftrightarrow>
        signal_fails signal sys name
        \<or> \<not> (\<exists>r\<in>set runs. jobName r = name \<and> status r = Some ''running''))
     \<and> (killed (fst (killJob signal clock sys name)) \<longleftrightarrow>
          error (fst (killJob signal clock sys name)) = None)
     \<and> kill_calls (snd (killJob signal clock sys name)) =
          kill_calls sys @ (case pid_files sys name of None \<Rightarrow> [] | Some pid \<Rightarrow> [pid])
     \<and> (if signal_fails signal sys name
         then run_state (snd (killJob signal clock sys name)) = Some runs
              \<and> pid_files (snd (killJob signal clock sys name)) = pid_files sys
              \<and> lock_dirs (snd (killJob signal clock sys name)) = lock_dirs sys
         else run_state (snd (killJob signal clock sys name)) = Some (map (force_killed clock name) runs)
              \<and> pid_files (snd (killJob signal clock sys name)) name = None
              \<and> lock_dirs (snd (killJob signal clock sys name)) =
                  (if pid_files sys name = None then lock_dirs sys else lock_dirs sys - {name}))"
proof (cases "pid_files sys name")
  case None
  have k: "killJob signal clock sys name = mark_stale_runs clock sys name"
    using None by (simp add: killJob_def)
  have nf: "\<not> signal_fails signal sys name" using None by (simp add: signal_fails_def)
  show ?thesis
    unfolding k mark_stale_runs_eq[OF assms] using None nf by simp
next
  case (Some pid)
  show ?thesis
  proof (cases "signal pid")
    case (SignalError msg)
    have k: "killJob signal clock sys name =
               (\<lparr> killed = False, error = Some msg \<rparr>, sys \<lparr> kill_calls := kill_calls sys @ [pid] \<rparr>)"
      using Some SignalError by (simp add: killJob_def)
    have f: "signal_fails signal sys name" using Some SignalError by (simp add: signal_fails_def)
    show ?thesis unfolding k using Some f assms(1) by simp
  next
    case Delivered
    let ?sys = "sys \<lparr> kill_calls := kill_calls sys @ [pid],
                        pid_files := (pid_files sys)(name := None),
                        lock_dirs := lock_dirs sys - {name} \<rparr>"
    have k: "killJob signal clock sys name = mark_stale_runs clock ?sys name"
      using Some Delivered by (simp add: killJob_def)
    have st: "run_state ?sys = Some runs" using assms(1) by simp
    have nf: "\<not> signal_fails signal sys name" using Some Delivered by (simp add: signal_fails_def)
    show ?thesis
      unfolding k mark_stale_runs_eq[OF st assms(2)] using Some nf by simp
  next
    case ESRCH
    let ?sys = "sys \<lparr> kill_calls := kill_calls sys @ [pid],
                        pid_files := (pid_files sys)(name := None),
                        lock_dirs := lock_dirs sys - {name} \<rparr>"
    have k: "killJob signal clock sys name = mark_stale_runs clock ?sys name"
      using Some ESRCH by (simp add: killJob_def)
    have st: "run_state ?sys = Some runs" using assms(1) by simp
    have nf: "\<not> signal_fails signal sys name" using Some ESRCH by (simp add: signal_fails_def)
    show ?thesis
      unfolding k mark_stale_runs_eq[OF st assms(2)] using Some nf by simp
  qed
qed

theorem killJob_outcome_witness:
  "run_state stale_without_lock =
       Some [running_entry ''my-job-20250101-000000'' ''my-job'' ''2025-01-01T00:00:00Z''
               ''/logs/my-job-20250101-000000.log'']
   \<and> distinct (map runId [running_entry ''my-job-20250101-000000'' ''my-job'' ''2025-01-01T00:00:00Z''
               ''/logs/my-job-20250101-000000.log''])
   \<and> killed (fst (killJob (\<lambda>p. Delivered) (\<lambda>r. ''2025-01-01T01:00:00.000Z'') stale_without_lock ''my-job''))
   \<and> map status (getRecentRuns (run_state (snd (killJob (\<lambda>p. Delivered)
          (\<lambda>r. ''2025-01-01T01:00:00.000Z'') stale_without_lock ''my-job'')))) = [Some ''killed'']
   \<and> map exitCode (getRecentRuns (run_state (snd (killJob (\<lambda>p. Delivered)
          (\<lambda>r. ''2025-01-01T01:00:00.000Z'') stale_without_lock ''my-job'')))) = [Some 137]"
proof -
  have s: "run_state stale_without_lock =
       Some [running_entry ''my-job-20250101-000000'' ''my-job'' ''2025-01-01T00:00:00Z''
               ''/logs/my-job-20250101-000000.log'']"
    by (simp add: stale_without_lock_def)
  have d: "distinct (map runId [running_entry ''my-job-20250101-000000'' ''my-job'' ''2025-01-01T00:00:00Z''
               ''/logs/my-job-20250101-000000.log''])"
    by simp
  have nf: "\<not> signal_fails (\<lambda>p. Delivered) stale_without_lock ''my-job''"
    by (simp add: signal_fails_def stale_without_lock_def)
  show ?thesis
    using killJob_outcome[OF s d, of "\<lambda>p. Delivered" "\<lambda>r. ''2025-01-01T01:00:00.000Z''" "''my-job''"] s nf
    by (simp add: running_entry_def force_killed_def getRecentRuns_def)
qed

text \<open>
  C4 as stated fails: with the lock held and the signal delivered, but no running record
  in the store, \<open>killJob\<close> removes the lock and still returns an error.
\<close>

theorem killJob_error_although_locked:
  "''my-job'' \<in> lock_dirs locked_without_record
   \<and> pid_files locked_without_record ''my-job'' = Some ''4242''
   \<and> fst (killJob (\<lambda>p. Delivered) (\<lambda>r. ''2025-01-01T01:00:00.000Z'') locked_without_record ''my-job'')
       = \<lparr> killed = False, error = Some ''No running process found'' \<rparr>
   \<and> kill_calls (snd (killJob (\<lambda>p. Delivered) (\<lambda>r. ''2025-01-01T01:00:00.000Z'')
         locked_without_record ''my-job'')) = [''4242'']"
  by (simp add: killJob_def mark_stale_runs_def locked_without_record_def getRecentRuns_def)

section \<open>Proofs: the retry loop and the pause check\<close>














text \<open>
  With a negative \<open>retries\<close> value the loop body never runs: no execution, exit code 1,
  and a final record with \<open>attempts = 0\<close>.
\<close>

lemma negative_retries_run_nothing:
  assumes "MAX_RETRIES < 0" and "JOB_NAME \<notin> locks sys"
    and "splice_safe (HOME env)" and "splice_safe JOB_NAME"
  shows "fst (run_job claude env sys JOB_NAME MAX_RETRIES) = 1"
    and "slept (snd (run_job claude env sys JOB_NAME MAX_RETRIES)) = slept sys"
    and "state_json (snd (run_job claude env sys JOB_NAME MAX_RETRIES)) =
           final_update
             (write_running (state_json sys)
                (running_entry (RUN_ID JOB_NAME (local_time env)) JOB_NAME (START_TIME env)
                   (LOG_FILE env JOB_NAME)))
             (final_entry (RUN_ID JOB_NAME (local_time env)) JOB_NAME (START_TIME env)
                (END_TIME env) 1 0 (LOG_FILE env JOB_NAME))"
proof -
  have "retry_loop claude MAX_RETRIES s = s" if "ATTEMPT s = 0" for s
    using assms(1) that by (subst retry_loop.simps) simp
  then show "fst (run_job claude env sys JOB_NAME MAX_RETRIES) = 1"
    and "slept (snd (run_job claude env sys JOB_NAME MAX_RETRIES)) = slept sys"
    and "state_json (snd (run_job claude env sys JOB_NAME MAX_RETRIES)) =
           final_update
             (write_running (state_json sys)
                (running_entry (RUN_ID JOB_NAME (local_time env)) JOB_NAME (START_TIME env)
                   (LOG_FILE env JOB_NAME)))
             (final_entry (RUN_ID JOB_NAME (local_time env)) JOB_NAME (START_TIME env)
                (END_TIME env) 1 0 (LOG_FILE env JOB_NAME))"
    using assms(2,3,4) by (simp_all add: run_job_def Let_def)
qed

text \<open>
  C7. The launchd agent and the trigger endpoint start runner.sh with the same argument,
  the job name; runner.sh exits 0 for a job whose \<open>enabled\<close> is false before it takes the
  lock, so the manual trigger of a paused job runs nothing either: no record, no log, no
  execution.
\<close>

theorem paused_job_is_skipped_by_every_trigger:
  "trigger_args Manual ''my-job'' = trigger_args Scheduled ''my-job''
   \<and> runner claude env paused_sys (trigger_args Scheduled ''my-job'') = (0, paused_sys)
   \<and> runner claude env paused_sys (trigger_args Manual ''my-job'') = (0, paused_sys)"
  by (simp add: trigger_args_def spawnJob_args_def runner_def paused_sys_def demo_sys_def my_job_def)

section \<open>Proofs: run ids\<close>















section \<open>Proofs: authentication\<close>

lemma route_not_Unauthorized: "route req \<noteq> Unauthorized"
  by (simp add: route_def)


lemma AUTH_TOKEN_truthy: "\<not> js_falsy v \<Longrightarrow> AUTH_TOKEN (Some v) = v"
  by (simp add: AUTH_TOKEN_def)




text \<open>
  The liveness probe is registered behind the same middleware: without the token it is
  answered 401, with it 200.
\<close>

lemma health_probe_needs_the_token:
  "app_fetch (AUTH_TOKEN (Some (YStr ''s3cret''))) health_probe = Unauthorized"
  "app_fetch (AUTH_TOKEN (Some (YStr ''s3cret'')))
     (health_probe \<lparr> authorization := Some ''Bearer s3cret'' \<rparr>) = Health_ok"
  by (simp_all add: app_fetch_def AUTH_TOKEN_def auth_middleware_def health_probe_def
        matches_api_def route_def)

text \<open>
  A secret that is not a string, which the type \<open>Config\<close> rules out and YAML does not: it
  is matched by the header, in its printed form, and never by the query parameter. So
  for \<open>auth_token: 12345\<close> without quotes.
\<close>

lemma non_string_secret:
  assumes "matches_api (req_path req)" and "req_method req \<noteq> ''OPTIONS''"
    and "\<not> js_falsy v" and "\<forall>s. v \<noteq> YStr s"
  shows "app_fetch (AUTH_TOKEN (Some v)) req = Unauthorized \<longleftrightarrow>
           authorization req \<noteq> Some (''Bearer '' @ js_String v)"
proof -
  have t: "AUTH_TOKEN (Some v) = v" using assms(3) by (rule AUTH_TOKEN_truthy)
  have q: "(case v of YStr s \<Rightarrow> query_token req = Some s | _ \<Rightarrow> False) = False"
    using assms(4) by (cases v) simp_all
  have c: "v \<noteq> YStr ''changeme''" using assms(4) by simp
  show ?thesis
    unfolding t using assms(1,2,3) c route_not_Unauthorized[of req]
    by (simp add: app_fetch_def auth_middleware_def q)
qed

lemma numeric_secret:
  "app_fetch (AUTH_TOKEN (Some (YNum 12345)))
     (health_probe \<lparr> req_path := ''/api/runs'', authorization := Some ''Bearer 12345'' \<rparr>) = Api_route"
  "app_fetch (AUTH_TOKEN (Some (YNum 12345)))
     (health_probe \<lparr> req_path := ''/api/events'', query_token := Some ''12345'' \<rparr>) = Unauthorized"
  by (simp_all add: app_fetch_def AUTH_TOKEN_def auth_middleware_def health_probe_def
        matches_api_def route_def show_int_def show_nat.simps digit_char_def)


section \<open>Proofs: toggling a job\<close>

lemma obj_set_absent: "map_of kvs k = None \<Longrightarrow> obj_set k v kvs = kvs @ [(k, v)]"
  by (induction kvs) (auto split: if_splits)

lemma obj_delete_appended: "map_of kvs k = None \<Longrightarrow> obj_delete k (kvs @ [(k, v)]) = kvs"
  by (induction kvs) (auto split: if_splits)

lemma map_of_appended: "map_of kvs k = None \<Longrightarrow> map_of (kvs @ [(k, v)]) k = Some v"
  by (induction kvs) (auto split: if_splits)

text \<open>
  C9. For a job whose definition is a mapping without the key \<open>enabled\<close>, and with
  js-yaml reading back the two documents the toggle writes: the first toggle answers
  \<open>enabled: false\<close> and stores the definition with \<open>enabled: false\<close> added, the second
  answers \<open>enabled: true\<close> and removes the key, so that the definition parsed afterwards
  is the original one.
\<close>

theorem toggle_twice_restores_definition:
  assumes "validateJobName name"
    and "getJobDefinition loadYaml fs name = Some (YMap kvs)"
    and "map_of kvs ''enabled'' = None"
    and "loadYaml (dumpYaml (YMap (kvs @ [(''enabled'', YBool False)])))
           = Some (YMap (kvs @ [(''enabled'', YBool False)]))"
    and "loadYaml (dumpYaml (YMap kvs)) = Some (YMap kvs)"
  shows "fst (toggleJob loadYaml dumpYaml fs name) = Toggled False
         \<and> getJobDefinition loadYaml (snd (toggleJob loadYaml dumpYaml fs name)) name
             = Some (YMap (kvs @ [(''enabled'', YBool False)]))
         \<and> fst (toggleJob loadYaml dumpYaml (snd (toggleJob loadYaml dumpYaml fs name)) name) = Toggled True
         \<and> getJobDefinition loadYaml
             (snd (toggleJob loadYaml dumpYaml (snd (toggleJob loadYaml dumpYaml fs name)) name)) name
             = getJobDefinition loadYaml fs name"
proof -
  obtain loc raw where res: "resolveJobFile fs name = Some (loc, raw)" and raw: "loadYaml raw = Some (YMap kvs)"
    using assms(2) by (auto simp: getJobDefinition_def split: option.splits)
  let ?kvs1 = "kvs @ [(''enabled'', YBool False)]"
  define fs1 where "fs1 = writeFileSync fs loc name (dumpYaml (YMap ?kvs1))"
  define fs2 where "fs2 = writeFileSync fs1 loc name (dumpYaml (YMap kvs))"
  have t1: "toggleJob loadYaml dumpYaml fs name = (Toggled False, fs1)"
    using assms(1,3) res raw
    by (simp add: toggleJob_def obj_set_absent fs1_def)
  have res1: "resolveJobFile fs1 name = Some (loc, dumpYaml (YMap ?kvs1))"
    using res by (cases loc) (auto simp: fs1_def writeFileSync_def resolveJobFile_def split: option.splits)
  have m1: "map_of ?kvs1 ''enabled'' = Some (YBool False)"
    by (rule map_of_appended[OF assms(3)])
  have od: "obj_delete ''enabled'' ?kvs1 = kvs"
    by (rule obj_delete_appended[OF assms(3)])
  have t2: "toggleJob loadYaml dumpYaml fs1 name = (Toggled True, fs2)"
    using assms(1,4) res1
    by (simp add: toggleJob_def m1 od fs2_def del: map_of_append)
  have res2: "resolveJobFile fs2 name = Some (loc, dumpYaml (YMap kvs))"
    using res1 by (cases loc) (auto simp: fs2_def writeFileSync_def resolveJobFile_def split: option.splits)
  have d1: "getJobDefinition loadYaml fs1 name = Some (YMap ?kvs1)"
    using res1 assms(4) by (simp add: getJobDefinition_def)
  have d2: "getJobDefinition loadYaml fs2 name = Some (YMap kvs)"
    using res2 assms(5) by (simp add: getJobDefinition_def)
  show ?thesis
    unfolding t1 fst_conv snd_conv t2 d1 d2 assms(2) by simp
qed

theorem toggle_twice_restores_definition_witness:
  "validateJobName ''toggle-on''
   \<and> getJobDefinition load_two toggle_on ''toggle-on'' = Some (YMap [(''prompt'', YStr ''hello'')])
   \<and> fst (toggleJob load_two dump_two toggle_on ''toggle-on'') = Toggled False
   \<and> fst (toggleJob load_two dump_two (snd (toggleJob load_two dump_two toggle_on ''toggle-on''))
           ''toggle-on'') = Toggled True
   \<and> getJobDefinition load_two
        (snd (toggleJob load_two dump_two (snd (toggleJob load_two dump_two toggle_on ''toggle-on''))
           ''toggle-on'')) ''toggle-on'' = Some (YMap [(''prompt'', YStr ''hello'')])"
proof -
  have v: "validateJobName ''toggle-on''" by (simp add: validateJobName_def)
  have g: "getJobDefinition load_two toggle_on ''toggle-on'' = Some (YMap [(''prompt'', YStr ''hello'')])"
    by (simp add: getJobDefinition_def resolveJobFile_def toggle_on_def load_two_def)
  have n: "map_of [(''prompt'', YStr ''hello'')] ''enabled'' = None" by simp
  have r1: "load_two (dump_two (YMap ([(''prompt'', YStr ''hello'')] @ [(''enabled'', YBool False)])))
           = Some (YMap ([(''prompt'', YStr ''hello'')] @ [(''enabled'', YBool False)]))"
    by (simp add: load_two_def dump_two_def)
  have r2: "load_two (dump_two (YMap [(''prompt'', YStr ''hello'')])) = Some (YMap [(''prompt'', YStr ''hello'')])"
    by (simp add: load_two_def dump_two_def)
  show ?thesis
    using toggle_twice_restores_definition[OF v g n r1 r2] v g by simp
qed


section \<open>Proofs: the cron compiler\<close>

subsection \<open>Words\<close>






subsection \<open>Numerals\<close>


lemma is_digit_not_star: "is_digit c \<Longrightarrow> c \<noteq> CHR ''*''"
  by (auto simp: is_digit_def)















subsection \<open>Numerals are what \<open>show_nat\<close> prints\<close>






subsection \<open>The loops return, with the values counted out\<close>






subsection \<open>One field\<close>







subsection \<open>The dicts\<close>

lemma length_concat_map_const:
  "(\<And>x. x \<in> set xs \<Longrightarrow> length (f x) = n) \<Longrightarrow> length (concat (map f xs)) = length xs * n"
  by (induction xs) simp_all

lemma length_generate_dicts:
  "length (generate_dicts mins hours doms mons dows) =
     length (split_words mins) * length (split_words hours) * length (split_words doms)
     * length (split_words mons) * length (split_words dows)"
  unfolding generate_dicts_def
  by (simp add: length_concat_map_const mult.assoc)


subsection \<open>Counting the dicts with \<open>grep\<close>\<close>

lemma grep_c_append: "grep_c p (xs @ ys) = grep_c p xs + grep_c p ys"
  by (simp add: grep_c_def)

lemma grep_c_dict_lines: "1 \<le> grep_c ''<dict>'' (dict_lines d)"
  by (simp add: grep_c_def dict_lines_def)

lemma grep_c_dicts: "length ds \<le> grep_c ''<dict>'' (concat (map dict_lines ds))"
proof (induction ds)
  case Nil
  show ?case by simp
next
  case (Cons d ds)
  have "grep_c ''<dict>'' (concat (map dict_lines (d # ds)))
          = grep_c ''<dict>'' (dict_lines d) + grep_c ''<dict>'' (concat (map dict_lines ds))"
    by (simp add: grep_c_append)
  then show ?case using grep_c_dict_lines[of d] Cons.IH by simp
qed

text \<open>The bare form is chosen only when there is one dict: the output is always the dicts printed.\<close>

lemma dicts_of_output:
  "dicts_of (if grep_c ''<dict>'' (concat (map dict_lines ds)) = 1 then Single_dict (hd ds)
             else Array_of ds) = ds"
proof (cases ds)
  case Nil
  then show ?thesis by (simp add: dicts_of_def grep_c_def)
next
  case (Cons d ds')
  show ?thesis
  proof (cases ds')
    case Nil
    then show ?thesis using Cons by (simp add: dicts_of_def)
  next
    case (Cons d' ds'')
    have "2 \<le> length ds" using \<open>ds = d # ds'\<close> Cons by simp
    then have "2 \<le> grep_c ''<dict>'' (concat (map dict_lines ds))"
      using grep_c_dicts[of ds] by simp
    then show ?thesis by (simp add: dicts_of_def)
  qed
qed

subsection \<open>The compiler\<close>

lemma compile_returns:
  assumes "read5 cron = (a, b, c, d, e)"
    and "expand_field a 60 = Some av" "expand_field b 24 = Some bv" "expand_field c 32 = Some cv"
        "expand_field d 13 = Some dv" "expand_field e 7 = Some ev"
  shows "\<exists>out. cron_to_calendar_interval cron = Some out
           \<and> dicts_of out = generate_dicts av bv cv dv ev"
  using dicts_of_output[of "generate_dicts av bv cv dv ev"]
  by (simp add: cron_to_calendar_interval_def assms Let_def)

text \<open>
  Whenever the compiler returns, on a valid expression or not, the dicts it printed are
  as many as the product of the numbers of words the five fields expand to.
\<close>

lemma count_is_product_of_expansions:
  assumes "cron_to_calendar_interval cron = Some out" and "read5 cron = (a, b, c, d, e)"
  shows "length (dicts_of out) = length (expansion a 60) * length (expansion b 24)
           * length (expansion c 32) * length (expansion d 13) * length (expansion e 7)"
proof -
  obtain av bv cv dv ev where ex: "expand_field a 60 = Some av" "expand_field b 24 = Some bv"
      "expand_field c 32 = Some cv" "expand_field d 13 = Some dv" "expand_field e 7 = Some ev"
    using assms by (auto simp: cron_to_calendar_interval_def split: option.splits)
  obtain out' where "cron_to_calendar_interval cron = Some out'"
    and "dicts_of out' = generate_dicts av bv cv dv ev"
    using compile_returns[OF assms(2) ex] by blast
  then have "dicts_of out = generate_dicts av bv cv dv ev" using assms(1) by simp
  then show ?thesis by (simp add: length_generate_dicts expansion_def ex)
qed









subsection \<open>The expressions of the specification\<close>

lemmas shell_eval = read5_def read_word_def strip_blanks_def is_blank_def is_space_def split_words_def
  split_commas_def after_first_def before_last_def matches_star_step_def matches_range_def
  wrap64_def digit_val_def from_base_def bash_int_def expand_field_def is_digit_def
  show_int_def show_nat.simps digit_char_def Let_def step_loop.simps range_loop.simps
  expansion_def

lemmas compile_eval = cron_to_calendar_interval_def generate_dicts_def dict_entry_def
  dict_lines_def grep_c_def






text \<open>
  \<open>*/step\<close> counts from 0 in every field, also in the day-of-month and month fields,
  whose domains start at 1.
\<close>

lemma stride_in_day_starts_at_zero:
  "map_option (\<lambda>out. hd (dicts_of out)) (cron_to_calendar_interval ''0 0 */10 * *'')
     = Some [(''Minute'', ''0''), (''Hour'', ''0''), (''Day'', ''0'')]
   \<and> \<not> in_domain ''Day'' (dec_val ''0'')"
  by (simp add: compile_eval shell_eval dicts_of_def in_domain_def dec_val_def)

end
